theory Spec2Isabelle
  imports Complex_Main "HOL-Library.Log_Nat"
begin

section \<open>JavaScript numbers\<close>

text \<open>
  A JavaScript \<open>number\<close> is an IEEE 754 binary64 value: a finite double, \<open>+Infinity\<close>,
  \<open>-Infinity\<close> or \<open>NaN\<close>. \<open>Finite x\<close> is the finite double of value \<open>x\<close>. The two
  zeros are one value here: \<open>===\<close> does not tell them apart, and in the code below
  the only divisor that can be a zero is \<open>count - 1\<close> in \<open>generateTicks\<close>, which
  is \<open>+0\<close>.
\<close>

datatype jsnum = Finite real | PosInfinity | NegInfinity | NaN

text \<open>
  Rounding. \<open>rne\<close> rounds a real to the nearest integer, a tie to the even one.
  \<open>binade x\<close> is the exponent \<open>e\<close> with \<open>2^e \<le> |x| < 2^(e+1)\<close>. \<open>fl x\<close> is the
  double nearest to the real \<open>x\<close> (round to nearest, ties to even): the spacing of
  the doubles around \<open>x\<close> is \<open>2^(e - 52)\<close>, with \<open>e\<close> not below \<open>-1022\<close> (gradual
  underflow: below \<open>2^-1022\<close> the spacing stays \<open>2^-1074\<close>, and a small enough \<open>x\<close>
  rounds to zero), and a result of magnitude \<open>2^1024\<close> is an infinity (overflow).
  \<open>is_double x\<close> says that the real \<open>x\<close> is the value of a double.
\<close>

definition rne :: "real \<Rightarrow> int" where
  "rne x =
     (let f = \<lfloor>x\<rfloor>
      in if x - of_int f < 1 / 2 then f
         else if 1 / 2 < x - of_int f then f + 1
         else if even f then f else f + 1)"

definition binade :: "real \<Rightarrow> int" where
  "binade x =
     (if 1 \<le> \<bar>x\<bar> then bitlen \<lfloor>\<bar>x\<bar>\<rfloor> - 1
      else - bitlen (\<lceil>1 / \<bar>x\<bar>\<rceil> - 1))"

definition fl :: "real \<Rightarrow> jsnum" where
  "fl x =
     (if x = 0 then Finite 0
      else
        let e = max (binade x) (- 1022);
            ulp = 2 powi (e - 52);
            r = of_int (rne (x / ulp)) * ulp
        in if 2 powi 1024 \<le> \<bar>r\<bar>
           then (if 0 < x then PosInfinity else NegInfinity)
           else Finite r)"

definition is_double :: "real \<Rightarrow> bool" where
  "is_double x = (fl x = Finite x)"

text \<open>\<open>Number.MIN_VALUE\<close>, the smallest positive double, about \<open>5e-324\<close>.\<close>

definition Number_MIN_VALUE :: real where
  "Number_MIN_VALUE = 2 powi (- 1074)"

fun Number_isNaN :: "jsnum \<Rightarrow> bool" where
  "Number_isNaN NaN = True"
| "Number_isNaN _ = False"

fun Number_isFinite :: "jsnum \<Rightarrow> bool" where
  "Number_isFinite (Finite _) = True"
| "Number_isFinite _ = False"

text \<open>
  The arithmetic operators. On finite operands the result is the exact result,
  rounded; the other cases are those of IEEE 754.
\<close>

fun js_neg :: "jsnum \<Rightarrow> jsnum" where
  "js_neg (Finite a) = Finite (- a)"
| "js_neg PosInfinity = NegInfinity"
| "js_neg NegInfinity = PosInfinity"
| "js_neg NaN = NaN"

fun js_add :: "jsnum \<Rightarrow> jsnum \<Rightarrow> jsnum" where
  "js_add (Finite a) (Finite b) = fl (a + b)"
| "js_add NaN _ = NaN"
| "js_add _ NaN = NaN"
| "js_add PosInfinity NegInfinity = NaN"
| "js_add NegInfinity PosInfinity = NaN"
| "js_add PosInfinity _ = PosInfinity"
| "js_add _ PosInfinity = PosInfinity"
| "js_add NegInfinity _ = NegInfinity"
| "js_add _ NegInfinity = NegInfinity"

definition js_sub :: "jsnum \<Rightarrow> jsnum \<Rightarrow> jsnum" where
  "js_sub a b = js_add a (js_neg b)"

fun js_mul :: "jsnum \<Rightarrow> jsnum \<Rightarrow> jsnum" where
  "js_mul (Finite a) (Finite b) = fl (a * b)"
| "js_mul NaN _ = NaN"
| "js_mul _ NaN = NaN"
| "js_mul (Finite a) y = (if a = 0 then NaN else if 0 < a then y else js_neg y)"
| "js_mul x (Finite b) = (if b = 0 then NaN else if 0 < b then x else js_neg x)"
| "js_mul PosInfinity y = y"
| "js_mul NegInfinity y = js_neg y"

text \<open>
  Division: a finite number divided by zero is an infinity (\<open>NaN\<close> for \<open>0/0\<close>); the
  zero divisor counts as \<open>+0\<close>.
\<close>

fun js_div :: "jsnum \<Rightarrow> jsnum \<Rightarrow> jsnum" where
  "js_div NaN _ = NaN"
| "js_div _ NaN = NaN"
| "js_div (Finite a) (Finite b) =
     (if b \<noteq> 0 then fl (a / b)
      else if a = 0 then NaN
      else if 0 < a then PosInfinity else NegInfinity)"
| "js_div (Finite a) _ = Finite 0"
| "js_div PosInfinity (Finite b) = (if 0 \<le> b then PosInfinity else NegInfinity)"
| "js_div NegInfinity (Finite b) = (if 0 \<le> b then NegInfinity else PosInfinity)"
| "js_div _ _ = NaN"

fun Math_abs :: "jsnum \<Rightarrow> jsnum" where
  "Math_abs (Finite a) = Finite \<bar>a\<bar>"
| "Math_abs PosInfinity = PosInfinity"
| "Math_abs NegInfinity = PosInfinity"
| "Math_abs NaN = NaN"

text \<open>\<open>a === b\<close> on numbers: \<open>NaN\<close> equals nothing, itself included.\<close>

definition js_strict_eq :: "jsnum \<Rightarrow> jsnum \<Rightarrow> bool" where
  "js_strict_eq a b = (a \<noteq> NaN \<and> b \<noteq> NaN \<and> a = b)"

text \<open>Truthiness of a number: \<open>0\<close> and \<open>NaN\<close> are falsy. \<open>a || b\<close> is \<open>a\<close> when truthy.\<close>

definition js_truthy :: "jsnum \<Rightarrow> bool" where
  "js_truthy a = (a \<noteq> NaN \<and> a \<noteq> Finite 0)"

definition js_or :: "jsnum \<Rightarrow> jsnum \<Rightarrow> jsnum" where
  "js_or a b = (if js_truthy a then a else b)"

fun js_min2 :: "jsnum \<Rightarrow> jsnum \<Rightarrow> jsnum" where
  "js_min2 NaN _ = NaN"
| "js_min2 _ NaN = NaN"
| "js_min2 NegInfinity _ = NegInfinity"
| "js_min2 _ NegInfinity = NegInfinity"
| "js_min2 PosInfinity y = y"
| "js_min2 x PosInfinity = x"
| "js_min2 (Finite a) (Finite b) = Finite (min a b)"

fun js_max2 :: "jsnum \<Rightarrow> jsnum \<Rightarrow> jsnum" where
  "js_max2 NaN _ = NaN"
| "js_max2 _ NaN = NaN"
| "js_max2 PosInfinity _ = PosInfinity"
| "js_max2 _ PosInfinity = PosInfinity"
| "js_max2 NegInfinity y = y"
| "js_max2 x NegInfinity = x"
| "js_max2 (Finite a) (Finite b) = Finite (max a b)"

section \<open>Exceptions and values of the host application\<close>

text \<open>
  A thrown value \<open>e\<close> is given by what \<open>String(e)\<close> does: it returns a text
  (\<open>Error msg\<close>), or it throws in turn (\<open>Unprintable thrown\<close>), as it does for an
  object without a usable \<open>toString\<close>, such as \<open>Object.create(null)\<close>.
  A call either returns or throws.
\<close>

datatype js_error = Error string | Unprintable js_error

datatype 'a js_call = Throws js_error | Returns 'a

fun js_String :: "js_error \<Rightarrow> string js_call" where
  "js_String (Error msg) = Returns msg"
| "js_String (Unprintable thrown) = Throws thrown"

text \<open>
  What \<open>entry.getValue\<close> hands back (its declared type is \<open>Value | null\<close>):
  \<open>null\<close>, \<open>undefined\<close>, or an object, the \<open>Value\<close> wrapper. An object is given by
  what its methods do: the first argument of \<open>JObject\<close> is the outcome of
  \<open>isEmpty()\<close>, or \<open>None\<close> when the object has no property \<open>isEmpty\<close>; the second
  is the outcome of \<open>toString()\<close>.
\<close>

datatype js_value =
    JNull
  | JUndefined
  | JObject "bool js_call option" "string js_call"

text \<open>The field \<open>file\<close> of an entry, a point and a skipped entry is \<open>tfile\<close> here.\<close>

record TFile =
  path :: string
  basename :: string

record BasesEntry =
  tfile :: TFile
  getValue :: "string \<Rightarrow> js_value js_call"

section \<open>Types (types.ts)\<close>

record ScatterConfig =
  xAxis :: "string option"
  yAxis :: "string option"
  colorBy :: "string option"

record ScatterPoint =
  x :: jsnum
  y :: jsnum
  category :: "string option"
  label :: string
  tfile :: TFile
  entry :: BasesEntry

datatype NumericExtractionResult = NumSuccess jsnum | NumFailure string

datatype CategoryExtractionResult = CatSuccess string | CatFailure

record SkippedEntry =
  tfile :: TFile
  reason :: string

text \<open>The union \<open>ScatterPoint | SkippedEntry\<close> that \<open>entryToPoint\<close> returns.\<close>

datatype PointOrSkipped = Point ScatterPoint | Skipped SkippedEntry

record AxisBounds =
  min_val :: jsnum
  max_val :: jsnum

record PlotBounds =
  x :: AxisBounds
  y :: AxisBounds

record InnerDimensions =
  width :: jsnum
  height :: jsnum

record RenderedPoint = ScatterPoint +
  screenX :: jsnum
  screenY :: jsnum
  color :: string

record ColorPalette =
  fallback :: string
  colors :: "string list"

definition DEFAULT_PALETTE :: ColorPalette where
  "DEFAULT_PALETTE =
     \<lparr>fallback = ''var(--text-muted)'',
      colors =
        [''var(--color-blue)'', ''var(--color-green)'', ''var(--color-yellow)'',
         ''var(--color-orange)'', ''var(--color-red)'', ''var(--color-purple)'',
         ''var(--color-pink)'', ''var(--color-cyan)'']\<rparr>"

text \<open>
  A parameter with a default value, \<open>p: T = d\<close>, is an optional argument: the
  default is taken when the caller passes none.
\<close>

definition default_param :: "'a option \<Rightarrow> 'a \<Rightarrow> 'a" where
  "default_param arg d = (case arg of None \<Rightarrow> d | Some a \<Rightarrow> a)"

section \<open>Value extraction (data.ts)\<close>

text \<open>For an object without \<open>isEmpty\<close> the last line, \<open>return !value\<close>, returns false.\<close>

fun isValueEmpty :: "js_value \<Rightarrow> bool js_call" where
  "isValueEmpty JNull = Returns True"
| "isValueEmpty JUndefined = Returns True"
| "isValueEmpty (JObject (Some isEmpty) _) = isEmpty"
| "isValueEmpty (JObject None _) = Returns False"

text \<open>\<open>value.toString()\<close>; on \<open>null\<close> and \<open>undefined\<close> the property access throws.\<close>

fun js_toString :: "js_value \<Rightarrow> string js_call" where
  "js_toString (JObject _ toString) = toString"
| "js_toString JNull =
     Throws (Error ''TypeError: Cannot read properties of null (reading 'toString')'')"
| "js_toString JUndefined =
     Throws (Error ''TypeError: Cannot read properties of undefined (reading 'toString')'')"

definition quoted :: "string \<Rightarrow> string" where
  "quoted s = [CHR 0x22] @ s @ [CHR 0x22]"

text \<open>
  The body of the \<open>try\<close> block of \<open>extractNumericValue\<close>. \<open>Number\<close>, the conversion
  of a string to a number, belongs to the language and is a parameter here.
\<close>

definition extractNumericValue_try ::
    "(string \<Rightarrow> jsnum) \<Rightarrow> BasesEntry \<Rightarrow> string \<Rightarrow> NumericExtractionResult js_call" where
  "extractNumericValue_try Number ent propertyId =
     (case getValue ent propertyId of
        Throws e \<Rightarrow> Throws e
      | Returns value \<Rightarrow>
          (case (if value = JNull \<or> value = JUndefined then Returns True
                 else isValueEmpty value) of
             Throws e \<Rightarrow> Throws e
           | Returns True \<Rightarrow>
               Returns (NumFailure (''Property '' @ quoted propertyId @ '' is empty''))
           | Returns False \<Rightarrow>
               (case js_toString value of
                  Throws e \<Rightarrow> Throws e
                | Returns stringValue \<Rightarrow>
                    (let numericValue = Number stringValue
                     in if Number_isNaN numericValue
                        then Returns (NumFailure (''Property '' @ quoted propertyId @ '' value ''
                                                   @ quoted stringValue @ '' is not numeric''))
                        else if \<not> Number_isFinite numericValue
                        then Returns (NumFailure (''Property '' @ quoted propertyId
                                                   @ '' value is not finite''))
                        else Returns (NumSuccess numericValue)))))"

text \<open>
  The \<open>catch\<close> block builds its message from \<open>String(e)\<close>, outside any \<open>try\<close>: when
  that conversion throws, \<open>extractNumericValue\<close> throws.
\<close>

definition extractNumericValue ::
    "(string \<Rightarrow> jsnum) \<Rightarrow> BasesEntry \<Rightarrow> string \<Rightarrow> NumericExtractionResult js_call" where
  "extractNumericValue Number ent propertyId =
     (case extractNumericValue_try Number ent propertyId of
        Returns result \<Rightarrow> Returns result
      | Throws e \<Rightarrow>
          (case js_String e of
             Returns msg \<Rightarrow>
               Returns (NumFailure (''Failed to read property '' @ quoted propertyId @ '': '' @ msg))
           | Throws thrown \<Rightarrow> Throws thrown))"

definition extractCategoryValue_try :: "BasesEntry \<Rightarrow> string \<Rightarrow> CategoryExtractionResult js_call" where
  "extractCategoryValue_try ent propertyId =
     (case getValue ent propertyId of
        Throws e \<Rightarrow> Throws e
      | Returns value \<Rightarrow>
          (case (if value = JNull \<or> value = JUndefined then Returns True
                 else isValueEmpty value) of
             Throws e \<Rightarrow> Throws e
           | Returns True \<Rightarrow> Returns CatFailure
           | Returns False \<Rightarrow>
               (case js_toString value of
                  Throws e \<Rightarrow> Throws e
                | Returns s \<Rightarrow> Returns (CatSuccess s))))"

text \<open>Here the \<open>catch\<close> block does not look at the thrown value.\<close>

definition extractCategoryValue :: "BasesEntry \<Rightarrow> string option \<Rightarrow> CategoryExtractionResult" where
  "extractCategoryValue ent propertyId =
     (case propertyId of
        None \<Rightarrow> CatFailure
      | Some pid \<Rightarrow>
          (case extractCategoryValue_try ent pid of
             Returns result \<Rightarrow> result
           | Throws _ \<Rightarrow> CatFailure))"

section \<open>Point extraction (data.ts)\<close>

text \<open>An exception of \<open>extractNumericValue\<close> passes through \<open>entryToPoint\<close>.\<close>

definition entryToPoint ::
    "(string \<Rightarrow> jsnum) \<Rightarrow> BasesEntry \<Rightarrow> ScatterConfig \<Rightarrow> PointOrSkipped js_call" where
  "entryToPoint Number ent config =
     (case xAxis config of
        None \<Rightarrow>
          Returns (Skipped \<lparr>SkippedEntry.tfile = BasesEntry.tfile ent,
                            reason = ''X axis property not configured''\<rparr>)
      | Some xAxis_id \<Rightarrow>
     (case yAxis config of
        None \<Rightarrow>
          Returns (Skipped \<lparr>SkippedEntry.tfile = BasesEntry.tfile ent,
                            reason = ''Y axis property not configured''\<rparr>)
      | Some yAxis_id \<Rightarrow>
     (case extractNumericValue Number ent xAxis_id of
        Throws e \<Rightarrow> Throws e
      | Returns (NumFailure xReason) \<Rightarrow>
          Returns (Skipped \<lparr>SkippedEntry.tfile = BasesEntry.tfile ent, reason = xReason\<rparr>)
      | Returns (NumSuccess xValue) \<Rightarrow>
     (case extractNumericValue Number ent yAxis_id of
        Throws e \<Rightarrow> Throws e
      | Returns (NumFailure yReason) \<Rightarrow>
          Returns (Skipped \<lparr>SkippedEntry.tfile = BasesEntry.tfile ent, reason = yReason\<rparr>)
      | Returns (NumSuccess yValue) \<Rightarrow>
          (let categoryResult = extractCategoryValue ent (colorBy config);
               category = (case categoryResult of CatSuccess c \<Rightarrow> Some c | CatFailure \<Rightarrow> None)
           in Returns (Point \<lparr>ScatterPoint.x = xValue, ScatterPoint.y = yValue,
                              category = category,
                              label = basename (BasesEntry.tfile ent),
                              ScatterPoint.tfile = BasesEntry.tfile ent, entry = ent\<rparr>))))))"

section \<open>Batch processing (data.ts)\<close>

text \<open>
  The loop of \<open>extractCategories\<close>, with its two local variables: the set \<open>seen\<close>
  and the array \<open>categories\<close>, to which \<open>push\<close> appends.
\<close>

fun extractCategories_loop :: "ScatterPoint list \<Rightarrow> string set \<Rightarrow> string list \<Rightarrow> string list" where
  "extractCategories_loop [] seen categories = categories"
| "extractCategories_loop (point # points) seen categories =
     (case category point of
        Some c \<Rightarrow>
          if c \<notin> seen
          then extractCategories_loop points (insert c seen) (categories @ [c])
          else extractCategories_loop points seen categories
      | None \<Rightarrow> extractCategories_loop points seen categories)"

definition extractCategories :: "ScatterPoint list \<Rightarrow> string list" where
  "extractCategories points = extractCategories_loop points {} []"

section \<open>Coordinate transformation (data.ts)\<close>

definition createLinearScale :: "jsnum \<Rightarrow> jsnum \<Rightarrow> jsnum \<Rightarrow> jsnum \<Rightarrow> (jsnum \<Rightarrow> jsnum)" where
  "createLinearScale domainMin domainMax rangeMin rangeMax =
     (let domainSpan = js_sub domainMax domainMin;
          rangeSpan = js_sub rangeMax rangeMin
      in if js_strict_eq domainSpan (Finite 0)
         then (\<lambda>_. js_div (js_add rangeMin rangeMax) (Finite 2))
         else (\<lambda>value.
                 let normalized = js_div (js_sub value domainMin) domainSpan
                 in js_add rangeMin (js_mul normalized rangeSpan)))"

definition createInverseLinearScale :: "jsnum \<Rightarrow> jsnum \<Rightarrow> jsnum \<Rightarrow> jsnum \<Rightarrow> (jsnum \<Rightarrow> jsnum)" where
  "createInverseLinearScale domainMin domainMax rangeMin rangeMax =
     (let domainSpan = js_sub domainMax domainMin;
          rangeSpan = js_sub rangeMax rangeMin
      in if js_strict_eq rangeSpan (Finite 0)
         then (\<lambda>_. js_div (js_add domainMin domainMax) (Finite 2))
         else (\<lambda>screenValue.
                 let normalized = js_div (js_sub screenValue rangeMin) rangeSpan
                 in js_add domainMin (js_mul normalized domainSpan)))"

section \<open>Bounds calculation (data.ts)\<close>

text \<open>
  \<open>Math.min(...values)\<close> spreads the array into the arguments of one call. An
  engine accepts only so many arguments (the number depends on the engine and on
  the stack left; it is the parameter \<open>max_arguments\<close>) and throws a \<open>RangeError\<close>
  beyond. Within the limit, \<open>Math.min\<close> starts from \<open>+Infinity\<close> and \<open>Math.max\<close> from
  \<open>-Infinity\<close>, and a \<open>NaN\<close> argument makes the result \<open>NaN\<close>.
\<close>

definition Math_min :: "nat \<Rightarrow> jsnum list \<Rightarrow> jsnum js_call" where
  "Math_min max_arguments values =
     (if max_arguments < length values
      then Throws (Error ''RangeError: Maximum call stack size exceeded'')
      else Returns (foldl js_min2 PosInfinity values))"

definition Math_max :: "nat \<Rightarrow> jsnum list \<Rightarrow> jsnum js_call" where
  "Math_max max_arguments values =
     (if max_arguments < length values
      then Throws (Error ''RangeError: Maximum call stack size exceeded'')
      else Returns (foldl js_max2 NegInfinity values))"

text \<open>The literal \<open>0.05\<close> is the double nearest to \<open>5/100\<close>.\<close>

definition calculateAxisBounds :: "nat \<Rightarrow> jsnum list \<Rightarrow> jsnum option \<Rightarrow> AxisBounds option js_call" where
  "calculateAxisBounds max_arguments values paddingPercent_arg =
     (let paddingPercent = default_param paddingPercent_arg (fl (5 / 100))
      in if length values = 0 then Returns None
         else
           (case Math_min max_arguments values of
              Throws e \<Rightarrow> Throws e
            | Returns mn \<Rightarrow>
           (case Math_max max_arguments values of
              Throws e \<Rightarrow> Throws e
            | Returns mx \<Rightarrow>
                (let range = js_sub mx mn;
                     padding =
                       (if js_strict_eq range (Finite 0)
                        then js_or (js_mul (Math_abs mn) paddingPercent) (Finite 1)
                        else js_mul range paddingPercent)
                 in Returns (Some \<lparr>min_val = js_sub mn padding, max_val = js_add mx padding\<rparr>)))))"

section \<open>Color assignment (render.ts)\<close>

text \<open>
  The \<open>Map<string, string>\<close> built by \<open>createCategoryColorMap\<close>, read through
  \<open>get\<close>. A stored value is \<open>None\<close> when it is \<open>undefined\<close>: with an empty palette
  \<open>index % 0\<close> is \<open>NaN\<close> and \<open>palette.colors[NaN]\<close> is \<open>undefined\<close>.
\<close>

type_synonym ColorMap = "string \<rightharpoonup> string option"

definition createCategoryColorMap :: "string list \<Rightarrow> ColorPalette option \<Rightarrow> ColorMap" where
  "createCategoryColorMap categories palette_arg =
     (let palette = default_param palette_arg DEFAULT_PALETTE
      in fold (\<lambda>(index, category) colorMap.
                 colorMap(category \<mapsto>
                   (if length (colors palette) = 0 then None
                    else Some (colors palette ! (index mod length (colors palette))))))
           (enumerate 0 categories) Map.empty)"

text \<open>\<open>colorMap.get(point.category) ?? fallback\<close>: the fallback replaces \<open>undefined\<close>.\<close>

definition getPointColor :: "ScatterPoint \<Rightarrow> ColorMap \<Rightarrow> string option \<Rightarrow> string" where
  "getPointColor point colorMap fallback_arg =
     (let fallback_color = default_param fallback_arg (fallback DEFAULT_PALETTE)
      in case category point of
           None \<Rightarrow> fallback_color
         | Some c \<Rightarrow>
             (case colorMap c of
                Some (Some mapped) \<Rightarrow> mapped
              | _ \<Rightarrow> fallback_color))"

section \<open>Point transformation (render.ts)\<close>

definition transformPointsToScreen ::
    "ScatterPoint list \<Rightarrow> PlotBounds \<Rightarrow> InnerDimensions \<Rightarrow> ColorMap \<Rightarrow> ColorPalette option
      \<Rightarrow> RenderedPoint list" where
  "transformPointsToScreen points bounds inner colorMap palette_arg =
     (let palette = default_param palette_arg DEFAULT_PALETTE;
          scaleX = createLinearScale (min_val (PlotBounds.x bounds)) (max_val (PlotBounds.x bounds))
                     (Finite 0) (width inner);
          scaleY = createLinearScale (min_val (PlotBounds.y bounds)) (max_val (PlotBounds.y bounds))
                     (height inner) (Finite 0)
      in map (\<lambda>point.
                ScatterPoint.extend point
                  (RenderedPoint.fields
                     (scaleX (ScatterPoint.x point))
                     (scaleY (ScatterPoint.y point))
                     (getPointColor point colorMap (Some (fallback palette)))))
           points)"

section \<open>Tick generation (render.ts)\<close>

text \<open>
  \<open>Array.from({ length: count }, (_, i) => ...)\<close> builds the elements for
  \<open>i = 0, ..., count - 1\<close>; a negative length counts as \<open>0\<close>, and a length above
  \<open>2^32 - 1\<close> is a \<open>RangeError\<close>. The count is an integral number here.
\<close>

definition DEFAULT_TICK_CONFIG_count :: int where
  "DEFAULT_TICK_CONFIG_count = 5"

definition generateTicks :: "AxisBounds \<Rightarrow> int option \<Rightarrow> jsnum list js_call" where
  "generateTicks bounds count_arg =
     (let count = default_param count_arg DEFAULT_TICK_CONFIG_count;
          range = js_sub (max_val bounds) (min_val bounds);
          step = js_div range (js_sub (Finite (of_int count)) (Finite 1))
      in if 2 ^ 32 - 1 < count
         then Throws (Error ''RangeError: Invalid array length'')
         else Returns (map (\<lambda>i. js_add (min_val bounds) (js_mul (Finite (of_nat i)) step))
                         [0..<nat count]))"

section \<open>Reference definitions and example data\<close>

text \<open>
  The category labels of a list of points in the order of the points, absent
  categories left out, and the distinct elements of a list in the order of their
  first occurrence: what section 4.3 of the specification asks of
  \<open>extractCategories\<close>.
\<close>

definition present_categories :: "ScatterPoint list \<Rightarrow> string list" where
  "present_categories points =
     concat (map (\<lambda>p. case category p of None \<Rightarrow> [] | Some c \<Rightarrow> [c]) points)"

primrec first_seen :: "'a list \<Rightarrow> 'a list" where
  "first_seen [] = []"
| "first_seen (c # cs) = c # filter (\<lambda>d. d \<noteq> c) (first_seen cs)"

text \<open>
  The helpers of the unit tests: \<open>mockFile\<close> (here with the base name given),
  \<open>mockPoint\<close>, whose entry is the empty object, so that a call of its \<open>getValue\<close>
  throws, and an entry that answers from a table of properties.
\<close>

definition mockFile :: "string \<Rightarrow> string \<Rightarrow> TFile" where
  "mockFile p b = \<lparr>path = p, basename = b\<rparr>"

definition mockPoint :: "real \<Rightarrow> real \<Rightarrow> string option \<Rightarrow> ScatterPoint" where
  "mockPoint a b c =
     \<lparr>ScatterPoint.x = Finite a, ScatterPoint.y = Finite b, category = c, label = ''test'',
      ScatterPoint.tfile = mockFile ''test.md'' ''test'',
      entry = \<lparr>BasesEntry.tfile = mockFile ''test.md'' ''test'',
               getValue = (\<lambda>_. Throws (Error ''TypeError: entry.getValue is not a function''))\<rparr>\<rparr>"

definition mockEntry :: "(string \<rightharpoonup> js_value js_call) \<Rightarrow> BasesEntry" where
  "mockEntry props =
     \<lparr>BasesEntry.tfile = mockFile ''notes/task.md'' ''task'',
      getValue = (\<lambda>propertyId. case props propertyId of
                                   None \<Rightarrow> Returns JNull
                                 | Some r \<Rightarrow> r)\<rparr>"

definition mockValue :: "string \<Rightarrow> js_value js_call" where
  "mockValue s = Returns (JObject (Some (Returns False)) (Returns s))"

text \<open>A fragment of \<open>Number\<close>, enough for the examples.\<close>

definition mockNumber :: "string \<Rightarrow> jsnum" where
  "mockNumber s =
     (if s = ''2'' then Finite 2
      else if s = ''8'' then Finite 8
      else if s = ''Infinity'' then PosInfinity
      else if s = ''-Infinity'' then NegInfinity
      else NaN)"

section \<open>Rounding: properties\<close>

text \<open>
  What the proofs below need of the rounding: the exponent found by \<open>binade\<close> is
  the right one, \<open>fl\<close> commutes with negation, a value of magnitude \<open>2^1024\<close> or
  more overflows, a value below \<open>2^-1022\<close> is rounded on the grid of spacing
  \<open>2^-1074\<close>, every double is a multiple of \<open>2^-1074\<close>, the difference of two
  distinct doubles does not round to zero, the result of a rounding is a double
  (rounding it again changes nothing), and the integers up to \<open>2^53\<close> are doubles.
\<close>

lemma binade_bounds:
  assumes "v \<noteq> 0"
  shows "2 powi binade v \<le> \<bar>v\<bar>" and "\<bar>v\<bar> < 2 powi (binade v + 1)"
proof -
  have "2 powi binade v \<le> \<bar>v\<bar> \<and> \<bar>v\<bar> < 2 powi (binade v + 1)"
  proof (cases "1 \<le> \<bar>v\<bar>")
    case True
    define n where "n = \<lfloor>\<bar>v\<bar>\<rfloor>"
    have n: "0 < n" using True by (simp add: n_def)
    have b1: "1 \<le> bitlen n" using n by (simp add: bitlen_alt_def)
    from bitlen_bounds [OF n] have lo: "2 ^ nat (bitlen n - 1) \<le> n" and hi: "n < 2 ^ nat (bitlen n)"
      by auto
    have e: "binade v = bitlen n - 1" using True by (simp add: binade_def n_def)
    have "(2::real) powi (bitlen n - 1) = 2 ^ nat (bitlen n - 1)"
      using b1 by (simp add: power_int_def)
    also have "\<dots> \<le> of_int n" using lo
      by (metis of_int_le_iff of_int_numeral of_int_power)
    also have "\<dots> \<le> \<bar>v\<bar>" by (simp add: n_def)
    finally have A: "2 powi binade v \<le> \<bar>v\<bar>" by (simp add: e)
    have "n + 1 \<le> 2 ^ nat (bitlen n)" using hi by simp
    then have "real_of_int (n + 1) \<le> 2 ^ nat (bitlen n)"
      by (metis of_int_le_iff of_int_numeral of_int_power)
    moreover have "\<bar>v\<bar> < real_of_int (n + 1)" by (simp add: n_def)
    moreover have "(2::real) powi (bitlen n - 1 + 1) = 2 ^ nat (bitlen n)"
      using b1 by (simp add: power_int_def)
    ultimately have "\<bar>v\<bar> < 2 powi (bitlen n - 1 + 1)" by linarith
    then have "\<bar>v\<bar> < 2 powi (binade v + 1)" by (simp only: e)
    with A show ?thesis by simp
  next
    case False
    define z where "z = 1 / \<bar>v\<bar>"
    define c where "c = \<lceil>z\<rceil>"
    have xpos: "0 < \<bar>v\<bar>" using assms by simp
    have z1: "1 < z" using False xpos by (simp add: z_def)
    have c2: "0 < c - 1" using z1 by (simp add: c_def)
    define b where "b = bitlen (c - 1)"
    have b1: "1 \<le> b" using c2 by (simp add: b_def bitlen_alt_def)
    from bitlen_bounds [OF c2] have lo: "2 ^ nat (b - 1) \<le> c - 1" and hi: "c - 1 < 2 ^ nat b"
      by (auto simp: b_def)
    have e: "binade v = - b" using False by (simp add: binade_def b_def c_def z_def)
    have "c \<le> 2 ^ nat b" using hi by simp
    then have "real_of_int c \<le> 2 ^ nat b"
      by (metis of_int_le_iff of_int_numeral of_int_power)
    moreover have "z \<le> real_of_int c" by (simp add: c_def)
    ultimately have zle: "z \<le> 2 ^ nat b" by linarith
    have "real_of_int (c - 1) < z" unfolding c_def by linarith
    moreover have "(2::real) ^ nat (b - 1) \<le> real_of_int (c - 1)" using lo
      by (metis of_int_le_iff of_int_numeral of_int_power)
    ultimately have zgt: "2 ^ nat (b - 1) < z" by linarith
    have p1: "(2::real) powi (- b) = 1 / 2 ^ nat b"
      using b1 by (simp add: power_int_def field_simps)
    have p2: "(2::real) powi (- b + 1) = 1 / 2 ^ nat (b - 1)"
      using b1 by (simp add: power_int_def field_simps)
    have A: "2 powi (- b) \<le> \<bar>v\<bar>"
      using zle xpos unfolding p1 z_def by (simp add: field_simps)
    have B: "\<bar>v\<bar> < 2 powi (- b + 1)"
      using zgt xpos unfolding p2 z_def by (simp add: field_simps)
    show ?thesis using A B by (simp add: e)
  qed
  then show "2 powi binade v \<le> \<bar>v\<bar>" and "\<bar>v\<bar> < 2 powi (binade v + 1)" by auto
qed

lemma binade_eqI:
  assumes "2 powi e \<le> \<bar>v\<bar>" and "\<bar>v\<bar> < 2 powi (e + 1)"
  shows "binade v = e"
proof -
  have x0: "v \<noteq> 0"
  proof
    assume "v = 0"
    with assms(1) have "(2::real) powi e \<le> 0" by simp
    moreover have "(0::real) < 2 powi e" by simp
    ultimately show False by linarith
  qed
  note b = binade_bounds [OF x0]
  have 1: "e < binade v + 1"
  proof (rule ccontr)
    assume "\<not> e < binade v + 1"
    then have "(2::real) powi (binade v + 1) \<le> 2 powi e"
      by (intro power_int_increasing) auto
    with assms(1) b(2) show False by linarith
  qed
  have 2: "binade v < e + 1"
  proof (rule ccontr)
    assume "\<not> binade v < e + 1"
    then have "(2::real) powi (e + 1) \<le> 2 powi binade v"
      by (intro power_int_increasing) auto
    with assms(2) b(1) show False by linarith
  qed
  from 1 2 show ?thesis by simp
qed

lemma binade_uminus: "binade (- v) = binade v"
  by (simp add: binade_def)

lemma rne_uminus: "rne (- v) = - rne v"
proof (cases "v = of_int \<lfloor>v\<rfloor>")
  case True
  then obtain n where v: "v = of_int n" ..
  have "rne (- of_int n) = - rne (of_int n)"
    by (simp add: rne_def flip: of_int_minus)
  then show ?thesis by (simp add: v)
next
  case False
  define f where "f = \<lfloor>v\<rfloor>"
  have lt: "of_int f < v" "v < of_int f + 1"
    using False by (auto simp: f_def less_le) linarith+
  have fl: "\<lfloor>- v\<rfloor> = - f - 1"
    using lt by (intro floor_unique) auto
  have frac: "- v - real_of_int (- f - 1) = 1 - (v - real_of_int f)"
    by simp
  have A: "rne (- v) =
      (if 1 - (v - of_int f) < 1 / 2 then - f - 1
       else if 1 / 2 < 1 - (v - of_int f) then - f - 1 + 1
       else if even (- f - 1) then - f - 1 else - f - 1 + 1)"
    by (simp only: rne_def Let_def fl frac)
  have B: "rne v =
      (if v - of_int f < 1 / 2 then f
       else if 1 / 2 < v - of_int f then f + 1
       else if even f then f else f + 1)"
    by (simp add: rne_def Let_def f_def)
  show ?thesis unfolding A B by auto
qed

lemma rne_of_int: "rne (of_int n) = n"
  by (simp add: rne_def)

lemma fl_uminus: "fl (- v) = js_neg (fl v)"
  by (simp add: fl_def binade_uminus rne_uminus Let_def)

lemma rne_ge: "of_int N \<le> w \<Longrightarrow> N \<le> rne w"
proof -
  assume "of_int N \<le> w"
  then have "N \<le> \<lfloor>w\<rfloor>" by (simp add: le_floor_iff)
  moreover have "\<lfloor>w\<rfloor> \<le> rne w" by (simp add: rne_def Let_def)
  ultimately show ?thesis by simp
qed

lemma rne_le: "w \<le> of_int N \<Longrightarrow> rne w \<le> N"
  using rne_ge [of "- N" "- w"] by (simp add: rne_uminus)

lemma fl_0: "fl 0 = Finite 0"
  by (simp add: fl_def)

lemma scaled_ge:
  assumes "0 < v" and "- 1022 \<le> binade v"
  shows "2 ^ 52 \<le> rne (v / 2 powi (binade v - 52))"
proof -
  have x0: "v \<noteq> 0" using assms by simp
  have "2 powi binade v \<le> v" using binade_bounds(1) [OF x0] assms by simp
  then have "2 powi binade v / 2 powi (binade v - 52) \<le> v / 2 powi (binade v - 52)"
    by (simp add: divide_right_mono)
  moreover have "(2::real) powi binade v / 2 powi (binade v - 52) = 2 ^ 52"
    by (simp add: power_int_diff)
  ultimately have "real_of_int (2 ^ 52) \<le> v / 2 powi (binade v - 52)" by simp
  then show ?thesis by (rule rne_ge)
qed

lemma fl_unfold:
  assumes "v \<noteq> 0" and "max (binade v) (- 1022) = e"
    and "r = of_int (rne (v / 2 powi (e - 52))) * 2 powi (e - 52)"
  shows "fl v = (if 2 powi 1024 \<le> \<bar>r\<bar>
                 then (if 0 < v then PosInfinity else NegInfinity) else Finite r)"
  unfolding fl_def Let_def assms(2) assms(3) using assms(1) by (simp only: if_False)

lemma fl_overflow_pos:
  assumes "2 powi 1024 \<le> v"
  shows "fl v = PosInfinity"
proof -
  have "(0::real) < 2 powi 1024" by (rule zero_less_power_int) simp
  with assms have pos: "0 < v" by linarith
  have x0: "v \<noteq> 0" using pos by simp
  have "\<bar>v\<bar> < 2 powi (binade v + 1)" by (rule binade_bounds(2) [OF x0])
  with assms pos have lt: "2 powi 1024 < (2::real) powi (binade v + 1)" by linarith
  have b: "1024 \<le> binade v"
  proof (rule ccontr)
    assume "\<not> 1024 \<le> binade v"
    then have "binade v + 1 \<le> 1024" by simp
    then have "(2::real) powi (binade v + 1) \<le> 2 powi 1024"
      by (rule power_int_increasing) simp
    with lt show False by linarith
  qed
  then have e: "max (binade v) (- 1022) = binade v" by simp
  define r :: real where "r = of_int (rne (v / 2 powi (binade v - 52))) * 2 powi (binade v - 52)"
  have "(2::int) ^ 52 \<le> rne (v / 2 powi (binade v - 52))"
    using scaled_ge [OF pos] b by simp
  then have "real_of_int (2 ^ 52) \<le> real_of_int (rne (v / 2 powi (binade v - 52)))"
    by (simp only: of_int_le_iff)
  then have "real_of_int (2 ^ 52) * 2 powi (binade v - 52) \<le> r"
    unfolding r_def by (rule mult_right_mono) simp
  moreover have "real_of_int (2 ^ 52) * 2 powi (binade v - 52) = 2 powi binade v"
    by (simp add: power_int_diff)
  moreover have "(2::real) powi 1024 \<le> 2 powi binade v"
    using b by (rule power_int_increasing) simp
  ultimately have "2 powi 1024 \<le> r" by linarith
  then have big: "2 powi 1024 \<le> \<bar>r\<bar>" by linarith
  show ?thesis
    unfolding fl_unfold [OF x0 e r_def] using big pos by (simp only: if_True)
qed

lemma fl_overflow_neg:
  assumes "v \<le> - (2 powi 1024)"
  shows "fl v = NegInfinity"
proof -
  have "fl (- v) = PosInfinity" using assms by (intro fl_overflow_pos) linarith
  then show ?thesis using fl_uminus [of v] by (cases "fl v") simp_all
qed

lemma nonzero_if_ge_power:
  assumes "2 powi e \<le> \<bar>v::real\<bar>"
  shows "v \<noteq> 0"
proof
  assume "v = 0"
  with assms have "(2::real) powi e \<le> 0" by simp
  moreover have "(0::real) < 2 powi e" by (rule zero_less_power_int) simp
  ultimately show False by linarith
qed

lemma fl_eqI:
  assumes "2 powi e \<le> \<bar>v\<bar>" and "\<bar>v\<bar> < 2 powi (e + 1)" and "- 1022 \<le> e"
    and "rne (v / 2 powi (e - 52)) = m"
    and "\<bar>of_int m * 2 powi (e - 52)\<bar> < (2::real) powi 1024"
  shows "fl v = Finite (of_int m * 2 powi (e - 52))"
proof -
  have b: "binade v = e" using assms(1,2) by (rule binade_eqI)
  have x0: "v \<noteq> 0" using assms(1) by (rule nonzero_if_ge_power)
  have e: "max (binade v) (- 1022) = e" using b assms(3) by simp
  have r: "of_int m * 2 powi (e - 52) = of_int (rne (v / 2 powi (e - 52))) * 2 powi (e - 52)"
    by (simp only: assms(4))
  have nb: "\<not> 2 powi 1024 \<le> \<bar>of_int m * (2::real) powi (e - 52)\<bar>" using assms(5) by linarith
  show ?thesis unfolding fl_unfold [OF x0 e r] using nb by (simp only: if_False)
qed

lemma MIN_VALUE_pos: "0 < Number_MIN_VALUE"
  unfolding Number_MIN_VALUE_def by (rule zero_less_power_int) simp

lemma power_int_split_1074: "(2::real) powi (e - 52) = 2 powi (e + 1022) * Number_MIN_VALUE"
proof -
  have "(2::real) powi ((e + 1022) + (- 1074)) = 2 powi (e + 1022) * 2 powi (- 1074)"
    by (rule power_int_add) simp
  moreover have "(e + 1022) + (- 1074) = e - 52" by simp
  ultimately show ?thesis by (simp only: Number_MIN_VALUE_def)
qed

lemma fl_subnormal:
  assumes "v \<noteq> 0" and "\<bar>v\<bar> < 2 powi (- 1022)"
  shows "fl v = Finite (of_int (rne (v / Number_MIN_VALUE)) * Number_MIN_VALUE)"
proof -
  have b: "binade v \<le> - 1022"
  proof (rule ccontr)
    assume "\<not> binade v \<le> - 1022"
    then have "- 1022 \<le> binade v" by simp
    then have "(2::real) powi (- 1022) \<le> 2 powi binade v"
      by (rule power_int_increasing) simp
    with binade_bounds(1) [OF assms(1)] assms(2) show False by linarith
  qed
  then have e: "max (binade v) (- 1022) = - 1022" by simp
  have u: "(2::real) powi (- 1022 - 52) = Number_MIN_VALUE"
    using power_int_split_1074 [of "- 1022"] by simp
  have q: "(2::real) powi (- 1022) = real_of_int (2 ^ 52) * Number_MIN_VALUE"
    using power_int_split_1074 [of "- 970"] by (simp del: power_int_numeral_neg_numeral)
  define w where "w = v / Number_MIN_VALUE"
  define r :: real where "r = of_int (rne w) * Number_MIN_VALUE"
  have r': "r = of_int (rne (v / 2 powi (- 1022 - 52))) * 2 powi (- 1022 - 52)"
    by (simp only: r_def w_def u)
  note pos = MIN_VALUE_pos
  have "\<bar>w\<bar> = \<bar>v\<bar> / Number_MIN_VALUE" using pos by (simp add: w_def)
  also have "\<dots> < real_of_int (2 ^ 52) * Number_MIN_VALUE / Number_MIN_VALUE"
    using assms(2) pos unfolding q by (rule divide_strict_right_mono)
  also have "\<dots> = real_of_int (2 ^ 52)" using pos by simp
  finally have ylt: "\<bar>w\<bar> < real_of_int (2 ^ 52)" .
  have m: "real_of_int (- (2 ^ 52)) = - real_of_int (2 ^ 52)" by (rule of_int_minus)
  have "rne w \<le> 2 ^ 52" by (rule rne_le) (use ylt in linarith)
  moreover have "- (2 ^ 52) \<le> rne w" by (rule rne_ge) (use ylt m in linarith)
  ultimately have "\<bar>real_of_int (rne w)\<bar> \<le> real_of_int (2 ^ 52)" by linarith
  then have "\<bar>real_of_int (rne w)\<bar> * Number_MIN_VALUE \<le> real_of_int (2 ^ 52) * Number_MIN_VALUE"
    using pos by (intro mult_right_mono) simp_all
  moreover have "\<bar>r\<bar> = \<bar>real_of_int (rne w)\<bar> * Number_MIN_VALUE"
    using pos by (simp add: r_def abs_mult)
  moreover have "(2::real) powi (- 1022) < 2 powi 1024"
    by (rule power_int_strict_increasing) simp_all
  ultimately have "\<not> 2 powi 1024 \<le> \<bar>r\<bar>" unfolding q by linarith
  then have "fl v = Finite r"
    unfolding fl_unfold [OF assms(1) e r'] by (simp only: if_False)
  then show ?thesis by (simp only: r_def w_def)
qed

lemma rne_nonzero:
  assumes "1 \<le> \<bar>w\<bar>"
  shows "rne w \<noteq> 0"
proof (cases "0 \<le> w")
  case True
  with assms have "real_of_int 1 \<le> w" by simp
  then have "1 \<le> rne w" by (rule rne_ge)
  then show ?thesis by simp
next
  case False
  with assms have "w \<le> real_of_int (- 1)" by simp
  then have "rne w \<le> - 1" by (rule rne_le)
  then show ?thesis by simp
qed

lemma fl_nonzero:
  assumes "Number_MIN_VALUE \<le> \<bar>v\<bar>"
  shows "fl v \<noteq> Finite 0"
proof -
  have x0: "v \<noteq> 0" using assms MIN_VALUE_pos by auto
  define e where "e = max (binade v) (- 1022)"
  define r :: real where "r = of_int (rne (v / 2 powi (e - 52))) * 2 powi (e - 52)"
  have ulp: "(0::real) < 2 powi (e - 52)" by (rule zero_less_power_int) simp
  have "2 powi (e - 52) \<le> \<bar>v\<bar>"
  proof (cases "binade v \<le> - 1022")
    case True
    then have "e = - 1022" by (simp add: e_def)
    then have "(2::real) powi (e - 52) = Number_MIN_VALUE"
      using power_int_split_1074 [of "- 1022"] by simp
    then show ?thesis using assms by (simp only:)
  next
    case False
    then have "e = binade v" by (simp add: e_def)
    moreover have "(2::real) powi (binade v - 52) \<le> 2 powi binade v"
      by (rule power_int_increasing) simp_all
    ultimately show ?thesis using binade_bounds(1) [OF x0] by simp
  qed
  then have "1 \<le> \<bar>v\<bar> / 2 powi (e - 52)" using ulp by (simp add: field_simps)
  then have "1 \<le> \<bar>v / 2 powi (e - 52)\<bar>" using ulp by simp
  then have "rne (v / 2 powi (e - 52)) \<noteq> 0" by (rule rne_nonzero)
  then have r0: "r \<noteq> 0" using ulp by (simp add: r_def)
  have "fl v = (if 2 powi 1024 \<le> \<bar>r\<bar>
                 then (if 0 < v then PosInfinity else NegInfinity) else Finite r)"
    by (rule fl_unfold [OF x0 _ r_def]) (simp add: e_def)
  then show ?thesis using r0 by (simp split: if_splits)
qed

lemma is_double_grid:
  assumes "is_double a"
  shows "\<exists>k::int. a = of_int k * Number_MIN_VALUE"
proof (cases "a = 0")
  case True
  then have "a = of_int 0 * Number_MIN_VALUE" by simp
  then show ?thesis ..
next
  case False
  define e where "e = max (binade a) (- 1022)"
  define m where "m = rne (a / 2 powi (e - 52))"
  define r :: real where "r = of_int (rne (a / 2 powi (e - 52))) * 2 powi (e - 52)"
  have "fl a = (if 2 powi 1024 \<le> \<bar>r\<bar>
                 then (if 0 < a then PosInfinity else NegInfinity) else Finite r)"
    by (rule fl_unfold [OF False _ r_def]) (simp add: e_def)
  with assms have ar: "a = r" by (simp add: is_double_def split: if_splits)
  have e0: "0 \<le> e + 1022" by (simp add: e_def)
  have "(2::real) powi (e + 1022) = of_int (2 ^ nat (e + 1022))"
    using e0 by (simp add: power_int_def)
  then have "(2::real) powi (e - 52) = of_int (2 ^ nat (e + 1022)) * Number_MIN_VALUE"
    by (simp only: power_int_split_1074)
  then have "a = of_int m * (of_int (2 ^ nat (e + 1022)) * Number_MIN_VALUE)"
    using ar by (simp only: r_def m_def)
  then have "a = of_int (m * 2 ^ nat (e + 1022)) * Number_MIN_VALUE"
    by (simp only: of_int_mult mult.assoc)
  then show ?thesis ..
qed

lemma fl_diff_nonzero:
  assumes "is_double a" and "is_double b" and "a \<noteq> b"
  shows "fl (a - b) \<noteq> Finite 0"
proof -
  from is_double_grid [OF assms(1)] obtain ka :: int where a: "a = of_int ka * Number_MIN_VALUE" ..
  from is_double_grid [OF assms(2)] obtain kb :: int where b: "b = of_int kb * Number_MIN_VALUE" ..
  note p = MIN_VALUE_pos
  have "ka \<noteq> kb" using assms(3) a b by auto
  then have "1 \<le> \<bar>real_of_int (ka - kb)\<bar>" by linarith
  then have "1 * Number_MIN_VALUE \<le> \<bar>real_of_int (ka - kb)\<bar> * Number_MIN_VALUE"
    using p by (intro mult_right_mono) simp_all
  moreover have "\<bar>a - b\<bar> = \<bar>real_of_int (ka - kb)\<bar> * Number_MIN_VALUE"
  proof -
    have "a - b = real_of_int (ka - kb) * Number_MIN_VALUE"
      unfolding a b by (simp add: algebra_simps)
    then show ?thesis using p by (simp add: abs_mult)
  qed
  ultimately have "Number_MIN_VALUE \<le> \<bar>a - b\<bar>" by simp
  then show ?thesis by (rule fl_nonzero)
qed

lemma fl_exact:
  assumes "v \<noteq> 0" and "v / 2 powi (max (binade v) (- 1022) - 52) = of_int m"
    and "\<bar>v\<bar> < 2 powi 1024"
  shows "fl v = Finite v"
proof -
  define e where "e = max (binade v) (- 1022)"
  have ulp: "(2::real) powi (e - 52) \<noteq> 0" by simp
  have "of_int (rne (v / 2 powi (e - 52))) * 2 powi (e - 52) = of_int m * 2 powi (e - 52)"
    using assms(2) by (simp only: e_def rne_of_int)
  also have "\<dots> = v / 2 powi (e - 52) * 2 powi (e - 52)"
    using assms(2) by (simp only: e_def)
  also have "\<dots> = v" using ulp by simp
  finally have r: "v = of_int (rne (v / 2 powi (e - 52))) * 2 powi (e - 52)" by simp
  have "fl v = (if 2 powi 1024 \<le> \<bar>v\<bar>
                 then (if 0 < v then PosInfinity else NegInfinity) else Finite v)"
    by (rule fl_unfold [OF assms(1) _ r]) (simp add: e_def)
  then show ?thesis using assms(3) by simp
qed

lemma binade_le:
  assumes "v \<noteq> 0" and "\<bar>v\<bar> \<le> 2 powi k"
  shows "binade v \<le> k"
proof (rule ccontr)
  assume "\<not> binade v \<le> k"
  then have "k + 1 \<le> binade v" by simp
  then have "(2::real) powi (k + 1) \<le> 2 powi binade v"
    by (rule power_int_increasing) simp
  moreover have "(2::real) powi k < 2 powi (k + 1)"
    by (rule power_int_strict_increasing) simp_all
  ultimately show False using binade_bounds(1) [OF assms(1)] assms(2) by linarith
qed

lemma binade_ge:
  assumes "2 powi k \<le> \<bar>v\<bar>"
  shows "k \<le> binade v"
proof (rule ccontr)
  have x0: "v \<noteq> 0" using assms by (rule nonzero_if_ge_power)
  assume "\<not> k \<le> binade v"
  then have "binade v + 1 \<le> k" by simp
  then have "(2::real) powi (binade v + 1) \<le> 2 powi k"
    by (rule power_int_increasing) simp
  then show False using binade_bounds(2) [OF x0] assms by linarith
qed

lemma is_double_of_int:
  assumes "\<bar>k\<bar> \<le> 2 ^ 53"
  shows "is_double (of_int k)"
proof (cases "k = 0")
  case True
  then show ?thesis by (simp add: is_double_def fl_0)
next
  case False
  define v where "v = real_of_int k"
  have x0: "v \<noteq> 0" using False by (simp add: v_def)
  have "1 \<le> \<bar>k\<bar>" using False by simp
  then have "1 \<le> \<bar>v\<bar>" unfolding v_def by linarith
  then have "2 powi 0 \<le> \<bar>v\<bar>" by simp
  then have e0: "0 \<le> binade v" by (rule binade_ge)
  have "real_of_int \<bar>k\<bar> \<le> real_of_int (2 ^ 53)" using assms by (simp only: of_int_le_iff)
  then have le53: "\<bar>v\<bar> \<le> 2 ^ 53" by (simp add: v_def)
  then have "\<bar>v\<bar> \<le> 2 powi 53" by simp
  then have e53: "binade v \<le> 53" by (rule binade_le [OF x0])
  have e: "max (binade v) (- 1022) = binade v" using e0 by simp
  have "(2::real) ^ 53 < 2 powi 1024" by simp
  with le53 have small: "\<bar>v\<bar> < 2 powi 1024" by linarith
  have "\<exists>m::int. v / 2 powi (binade v - 52) = of_int m"
  proof (cases "binade v \<le> 52")
    case True
    then have "(2::real) powi (binade v - 52) = 1 / 2 ^ nat (52 - binade v)"
      by (simp add: power_int_def field_simps)
    then have "v / 2 powi (binade v - 52) = of_int (k * 2 ^ nat (52 - binade v))"
      by (simp add: v_def)
    then show ?thesis ..
  next
    case False
    with e53 have b: "binade v = 53" by simp
    have "2 powi 53 \<le> \<bar>v\<bar>" using binade_bounds(1) [OF x0] by (simp only: b)
    with le53 have "\<bar>v\<bar> = 2 ^ 53" by simp
    then have "v = 2 ^ 53 \<or> v = - (2 ^ 53)" by linarith
    then have "v / 2 = of_int (2 ^ 52) \<or> v / 2 = of_int (- (2 ^ 52))" by auto
    then have "\<exists>m::int. v / 2 = of_int m" by blast
    then show ?thesis by (simp add: b)
  qed
  then obtain m :: int where "v / 2 powi (max (binade v) (- 1022) - 52) = of_int m"
    unfolding e ..
  from fl_exact [OF x0 this small] show ?thesis by (simp add: is_double_def v_def)
qed

lemma is_double_uminus: "is_double v \<Longrightarrow> is_double (- v)"
  by (simp add: is_double_def fl_uminus)

lemma fl_is_double:
  assumes "fl v = Finite r"
  shows "is_double r"
proof (cases "r = 0")
  case True
  then show ?thesis by (simp add: is_double_def fl_0)
next
  case r0: False
  have x0: "v \<noteq> 0" using assms r0 by (auto simp: fl_0)
  define e where "e = max (binade v) (- 1022)"
  define u :: real where "u = 2 powi (e - 52)"
  define m where "m = rne (v / u)"
  have upos: "0 < u" unfolding u_def by (rule zero_less_power_int) simp
  have "fl v = (if 2 powi 1024 \<le> \<bar>of_int m * u\<bar>
                 then (if 0 < v then PosInfinity else NegInfinity) else Finite (of_int m * u))"
    by (rule fl_unfold [OF x0]) (simp_all add: e_def u_def m_def)
  with assms have r: "r = of_int m * u" and small: "\<bar>r\<bar> < 2 powi 1024"
    by (auto split: if_splits)
  have u53: "2 ^ 53 * u = 2 powi (e + 1)"
  proof -
    have "(2::real) powi (53 + (e - 52)) = 2 powi 53 * 2 powi (e - 52)"
      by (rule power_int_add) simp
    then show ?thesis by (simp add: u_def add.commute)
  qed
  have "binade v \<le> e" by (simp add: e_def)
  then have "(2::real) powi (binade v + 1) \<le> 2 powi (e + 1)"
    by (intro power_int_increasing) simp_all
  with binade_bounds(2) [OF x0] have "\<bar>v\<bar> < 2 ^ 53 * u" by (simp only: u53)
  then have "\<bar>v / u\<bar> < 2 ^ 53" using upos by (simp add: field_simps)
  then have xulee: "\<bar>v / u\<bar> < 2 ^ 53" .
  have i53: "real_of_int (2 ^ 53) = 2 ^ 53" "real_of_int (- (2 ^ 53)) = - (2 ^ 53)" by simp_all
  have xu: "v / u \<le> real_of_int (2 ^ 53)" "real_of_int (- (2 ^ 53)) \<le> v / u"
    unfolding i53 using xulee by linarith+
  have mle: "m \<le> 2 ^ 53" unfolding m_def using xu(1) by (rule rne_le)
  have mge: "- (2 ^ 53) \<le> m" unfolding m_def using xu(2) by (rule rne_ge)
  have "\<bar>m\<bar> \<le> 2 ^ 53" using mle mge by simp
  then have "real_of_int \<bar>m\<bar> \<le> real_of_int (2 ^ 53)" by (simp only: of_int_le_iff)
  then have "\<bar>real_of_int m\<bar> \<le> 2 ^ 53" by simp
  then have h1: "\<bar>real_of_int m\<bar> * u \<le> 2 ^ 53 * u" using upos by (intro mult_right_mono) simp_all
  have absr: "\<bar>r\<bar> = \<bar>real_of_int m\<bar> * u" using upos by (simp add: r abs_mult)
  have rle: "\<bar>r\<bar> \<le> 2 powi (e + 1)" unfolding absr using h1 by (simp only: u53)
  define e' where "e' = max (binade r) (- 1022)"
  have e'le: "e' \<le> e + 1"
    using binade_le [OF r0 rle] by (simp add: e'_def e_def)
  have e'ge: "e \<le> e'"
  proof (cases "binade v \<le> - 1022")
    case True
    then show ?thesis by (simp add: e_def e'_def)
  next
    case False
    then have eb: "e = binade v" by (simp add: e_def)
    have "2 powi e / u \<le> \<bar>v\<bar> / u"
      using binade_bounds(1) [OF x0] upos by (simp add: eb divide_right_mono)
    moreover have "2 powi e / u = real_of_int (2 ^ 52)"
      by (simp add: u_def power_int_diff [symmetric])
    ultimately have "real_of_int (2 ^ 52) \<le> \<bar>v / u\<bar>" using upos by simp
    then have "2 ^ 52 \<le> \<bar>m\<bar>"
    proof (cases "0 \<le> v / u")
      case True
      with \<open>real_of_int (2 ^ 52) \<le> \<bar>v / u\<bar>\<close> have "real_of_int (2 ^ 52) \<le> v / u" by simp
      then have "2 ^ 52 \<le> m" unfolding m_def by (rule rne_ge)
      then show ?thesis by simp
    next
      case False
      with \<open>real_of_int (2 ^ 52) \<le> \<bar>v / u\<bar>\<close> have "v / u \<le> real_of_int (- (2 ^ 52))" by simp
      then have "m \<le> - (2 ^ 52)" unfolding m_def by (rule rne_le)
      then show ?thesis by simp
    qed
    then have "real_of_int (2 ^ 52) \<le> \<bar>real_of_int m\<bar>" by linarith
    then have "real_of_int (2 ^ 52) * u \<le> \<bar>real_of_int m\<bar> * u"
      using upos by (intro mult_right_mono) simp_all
    moreover have "real_of_int (2 ^ 52) * u = 2 powi e"
      using \<open>2 powi e / u = real_of_int (2 ^ 52)\<close> upos by (simp add: field_simps)
    ultimately have "2 powi e \<le> \<bar>r\<bar>" unfolding absr by linarith
    then have "e \<le> binade r" by (rule binade_ge)
    then show ?thesis by (simp add: e'_def)
  qed
  have "\<exists>k::int. r / 2 powi (e' - 52) = of_int k"
  proof (cases "e' = e")
    case True
    have "r / 2 powi (e' - 52) = of_int m" using upos by (simp add: True r u_def [symmetric])
    then show ?thesis ..
  next
    case False
    with e'le e'ge have e': "e' = e + 1" by simp
    then have "- 1022 < e'" by (simp add: e_def)
    then have "e' = binade r" by (simp add: e'_def)
    then have "2 powi (e + 1) \<le> \<bar>r\<bar>" using binade_bounds(1) [OF r0] by (simp add: e')
    with rle have "\<bar>r\<bar> = 2 powi (e + 1)" by linarith
    then have "\<bar>real_of_int m\<bar> * u = 2 ^ 53 * u" by (simp only: absr u53)
    then have "\<bar>real_of_int m\<bar> = 2 ^ 53" using upos by simp
    then have mm: "real_of_int m = 2 ^ 53 \<or> real_of_int m = - (2 ^ 53)" by linarith
    have "(2::real) powi (e' - 52) = 2 * u"
    proof -
      have "(2::real) powi (1 + (e - 52)) = 2 powi 1 * 2 powi (e - 52)"
        by (rule power_int_add) simp
      then show ?thesis by (simp add: e' u_def add.commute)
    qed
    then have q: "r / 2 powi (e' - 52) = real_of_int m / 2" using upos by (simp add: r)
    from mm show ?thesis
    proof
      assume "real_of_int m = 2 ^ 53"
      then have "r / 2 powi (e' - 52) = of_int (2 ^ 52)" unfolding q by simp
      then show ?thesis ..
    next
      assume "real_of_int m = - (2 ^ 53)"
      then have "r / 2 powi (e' - 52) = of_int (- (2 ^ 52))" unfolding q by simp
      then show ?thesis ..
    qed
  qed
  then obtain k :: int where "r / 2 powi (max (binade r) (- 1022) - 52) = of_int k"
    unfolding e'_def ..
  from fl_exact [OF r0 this small] show ?thesis by (simp add: is_double_def)
qed

text \<open>Evaluation of \<open>bitlen\<close>, and with it of \<open>fl\<close>, on numerals.\<close>

lemmas bitlen_eval = compute_bitlen [of "numeral n" for n] compute_bitlen [of 1]

lemmas fl_eval = fl_def binade_def rne_def Let_def bitlen_eval

lemma js_sub_Finite: "js_sub (Finite a) (Finite b) = fl (a - b)"
  by (simp add: js_sub_def)

lemma fl_not_NaN: "fl v \<noteq> NaN"
  by (simp add: fl_def Let_def)

lemma fl_1: "fl 1 = Finite 1"
  using is_double_of_int [of 1] by (simp add: is_double_def)

section \<open>Linear scale: properties\<close>

lemma createLinearScale_nondegenerate:
  assumes "js_sub d1 d0 \<noteq> Finite 0"
  shows "createLinearScale d0 d1 r0 r1 v =
           js_add r0 (js_mul (js_div (js_sub v d0) (js_sub d1 d0)) (js_sub r1 r0))"
  using assms by (simp add: createLinearScale_def js_strict_eq_def Let_def)

lemma createLinearScale_degenerate:
  assumes "js_sub d1 d0 = Finite 0"
  shows "createLinearScale d0 d1 r0 r1 v = js_div (js_add r0 r1) (Finite 2)"
  using assms by (simp add: createLinearScale_def js_strict_eq_def Let_def)

lemma createInverseLinearScale_nondegenerate:
  assumes "js_sub r1 r0 \<noteq> Finite 0"
  shows "createInverseLinearScale d0 d1 r0 r1 s =
           js_add d0 (js_mul (js_div (js_sub s r0) (js_sub r1 r0)) (js_sub d1 d0))"
  using assms by (simp add: createInverseLinearScale_def js_strict_eq_def Let_def)

lemma createInverseLinearScale_degenerate:
  assumes "js_sub r1 r0 = Finite 0"
  shows "createInverseLinearScale d0 d1 r0 r1 s = js_div (js_add d0 d1) (Finite 2)"
  using assms by (simp add: createInverseLinearScale_def js_strict_eq_def Let_def)

lemma js_sub_self: "js_sub (Finite a) (Finite a) = Finite 0"
  by (simp add: js_sub_Finite fl_0)

lemma midpoint_exact:
  assumes "is_double (a + b)" and "is_double ((a + b) / 2)"
  shows "js_div (js_add (Finite a) (Finite b)) (Finite 2) = Finite ((a + b) / 2)"
  using assms by (simp add: is_double_def)

text \<open>
  C5, as stated, promises the midpoint of the range for every degenerate domain.
  The midpoint is computed as \<open>(rangeMin + rangeMax) / 2\<close> in doubles, and the sum
  can overflow: for the range \<open>[2^1023, 2^1023]\<close>, whose midpoint \<open>2^1023\<close> is a
  double, the scale returns \<open>+Infinity\<close>.
\<close>

theorem C5_midpoint_overflow_counterexample:
  "is_double (2 ^ 1023)
   \<and> createLinearScale (Finite 1) (Finite 1) (Finite (2 ^ 1023)) (Finite (2 ^ 1023)) (Finite 0) =
       PosInfinity
   \<and> PosInfinity \<noteq> Finite ((2 ^ 1023 + 2 ^ 1023) / 2)"
proof -
  have "fl (2 ^ 1023) = Finite (of_int (2 ^ 52) * 2 powi (1023 - 52))"
    by (rule fl_eqI) (simp_all add: rne_def)
  then have d: "is_double (2 ^ 1023)" by (simp add: is_double_def)
  have "fl (2 ^ 1023 + 2 ^ 1023) = PosInfinity"
    by (rule fl_overflow_pos) simp
  then have "createLinearScale (Finite 1) (Finite 1) (Finite (2 ^ 1023)) (Finite (2 ^ 1023)) (Finite 0) =
       PosInfinity"
    by (simp add: createLinearScale_degenerate js_sub_self)
  with d show ?thesis by simp
qed

text \<open>
  C5, amended. With a degenerate domain (\<open>d0 = d1\<close>, finite) \<open>createLinearScale\<close>
  is a constant function: for every input it returns \<open>(rangeMin + rangeMax) / 2\<close>
  as computed in double arithmetic, which is the midpoint of the range whenever
  the sum and its half are doubles (no rounding, no overflow), and is an infinity
  when the sum overflows. \<open>createInverseLinearScale\<close> with a degenerate range does
  the same with the domain. The span is compared with zero before it is divided by:
  the quotient by the span is only computed for a span that is not zero.
\<close>

theorem C5_degenerate_scale_midpoint:
  "createLinearScale (Finite a) (Finite a) r0 r1 w = js_div (js_add r0 r1) (Finite 2)
   \<and> createInverseLinearScale d0 d1 (Finite r) (Finite r) w = js_div (js_add d0 d1) (Finite 2)
   \<and> (is_double (p + q) \<and> is_double ((p + q) / 2) \<longrightarrow>
        createLinearScale (Finite a) (Finite a) (Finite p) (Finite q) w = Finite ((p + q) / 2)
        \<and> createInverseLinearScale (Finite p) (Finite q) (Finite r) (Finite r) w = Finite ((p + q) / 2))
   \<and> (js_sub d1 d0 = Finite 0 \<longrightarrow>
        createLinearScale d0 d1 r0 r1 w = js_div (js_add r0 r1) (Finite 2))
   \<and> (js_sub d1 d0 \<noteq> Finite 0 \<longrightarrow>
        createLinearScale d0 d1 r0 r1 w =
          js_add r0 (js_mul (js_div (js_sub w d0) (js_sub d1 d0)) (js_sub r1 r0)))
   \<and> (js_sub r1 r0 = Finite 0 \<longrightarrow>
        createInverseLinearScale d0 d1 r0 r1 w = js_div (js_add d0 d1) (Finite 2))
   \<and> (js_sub r1 r0 \<noteq> Finite 0 \<longrightarrow>
        createInverseLinearScale d0 d1 r0 r1 w =
          js_add d0 (js_mul (js_div (js_sub w r0) (js_sub r1 r0)) (js_sub d1 d0)))"
proof (intro conjI impI)
  show "createLinearScale (Finite a) (Finite a) r0 r1 w = js_div (js_add r0 r1) (Finite 2)"
    by (rule createLinearScale_degenerate) (rule js_sub_self)
  show "createInverseLinearScale d0 d1 (Finite r) (Finite r) w = js_div (js_add d0 d1) (Finite 2)"
    by (rule createInverseLinearScale_degenerate) (rule js_sub_self)
next
  assume "is_double (p + q) \<and> is_double ((p + q) / 2)"
  then have m: "js_div (js_add (Finite p) (Finite q)) (Finite 2) = Finite ((p + q) / 2)"
    by (intro midpoint_exact) simp_all
  show "createLinearScale (Finite a) (Finite a) (Finite p) (Finite q) w = Finite ((p + q) / 2)"
    unfolding m [symmetric] by (rule createLinearScale_degenerate) (rule js_sub_self)
  show "createInverseLinearScale (Finite p) (Finite q) (Finite r) (Finite r) w = Finite ((p + q) / 2)"
    unfolding m [symmetric] by (rule createInverseLinearScale_degenerate) (rule js_sub_self)
next
  assume "js_sub d1 d0 = Finite 0"
  then show "createLinearScale d0 d1 r0 r1 w = js_div (js_add r0 r1) (Finite 2)"
    by (rule createLinearScale_degenerate)
next
  assume "js_sub d1 d0 \<noteq> Finite 0"
  then show "createLinearScale d0 d1 r0 r1 w =
          js_add r0 (js_mul (js_div (js_sub w d0) (js_sub d1 d0)) (js_sub r1 r0))"
    by (rule createLinearScale_nondegenerate)
next
  assume "js_sub r1 r0 = Finite 0"
  then show "createInverseLinearScale d0 d1 r0 r1 w = js_div (js_add d0 d1) (Finite 2)"
    by (rule createInverseLinearScale_degenerate)
next
  assume "js_sub r1 r0 \<noteq> Finite 0"
  then show "createInverseLinearScale d0 d1 r0 r1 w =
          js_add d0 (js_mul (js_div (js_sub w r0) (js_sub r1 r0)) (js_sub d1 d0))"
    by (rule createInverseLinearScale_nondegenerate)
qed

theorem C5_degenerate_scale_midpoint_witness:
  "is_double (0 + 100) \<and> is_double ((0 + 100) / 2)
   \<and> createLinearScale (Finite 50) (Finite 50) (Finite 0) (Finite 100) NaN = Finite 50
   \<and> createInverseLinearScale (Finite 0) (Finite 100) (Finite 50) (Finite 50) NaN = Finite 50
   \<and> js_sub (Finite 100) (Finite 0) \<noteq> Finite 0
   \<and> createLinearScale (Finite 0) (Finite 100) (Finite 0) (Finite 500) (Finite 50) = Finite 250
   \<and> js_sub (Finite 500) (Finite 0) \<noteq> Finite 0
   \<and> createInverseLinearScale (Finite 0) (Finite 100) (Finite 0) (Finite 500) (Finite 250) = Finite 50"
proof -
  have d: "is_double (0 + 100) \<and> is_double ((0 + 100) / 2)"
    using is_double_of_int [of 100] is_double_of_int [of 50] by simp
  have e: "fl 100 = Finite 100" "fl 500 = Finite 500" "fl (50 / 100) = Finite (1 / 2)"
    "fl (1 / 2 * 500) = Finite 250" "fl 250 = Finite 250" "fl 50 = Finite 50"
    "fl (250 / 500) = Finite (1 / 2)" "fl (1 / 2 * 100) = Finite 50" "fl (1 / 2) = Finite (1 / 2)"
    by (simp_all add: fl_eval)
  have s: "js_sub (Finite 100) (Finite 0) = Finite 100" "js_sub (Finite 500) (Finite 0) = Finite 500"
    "js_sub (Finite 50) (Finite 0) = Finite 50" "js_sub (Finite 250) (Finite 0) = Finite 250"
    by (simp_all add: js_sub_Finite e)
  show ?thesis
    using C5_degenerate_scale_midpoint [of 50 "Finite 0" "Finite 100" NaN "Finite 0" "Finite 100"
        50 0 100] d
      C5_degenerate_scale_midpoint [of 0 "Finite 0" "Finite 500" "Finite 50" "Finite 0" "Finite 100"
        0 0 0]
      C5_degenerate_scale_midpoint [of 0 "Finite 0" "Finite 500" "Finite 250" "Finite 0" "Finite 100"
        0 0 0]
    by (simp add: s e)
qed




section \<open>Axis bounds: properties\<close>

lemma foldl_js_min2_Finite:
  "foldl js_min2 (Finite a) (map Finite vs) = Finite (fold min vs a)"
  by (induction vs arbitrary: a) (simp_all add: min.commute)

lemma foldl_js_max2_Finite:
  "foldl js_max2 (Finite a) (map Finite vs) = Finite (fold max vs a)"
  by (induction vs arbitrary: a) (simp_all add: max.commute)

lemma Math_min_Finite:
  assumes "vs \<noteq> []" and "length vs \<le> max_arguments"
  shows "Math_min max_arguments (map Finite vs) = Returns (Finite (Min (set vs)))"
  using assms
  by (cases vs) (simp_all add: Math_min_def foldl_js_min2_Finite Min.set_eq_fold del: set_simps)

lemma Math_max_Finite:
  assumes "vs \<noteq> []" and "length vs \<le> max_arguments"
  shows "Math_max max_arguments (map Finite vs) = Returns (Finite (Max (set vs)))"
  using assms
  by (cases vs) (simp_all add: Math_max_def foldl_js_max2_Finite Max.set_eq_fold del: set_simps)

lemma calculateAxisBounds_min_max:
  assumes "values \<noteq> []"
    and "Math_min max_arguments values = Returns (Finite lo)"
    and "Math_max max_arguments values = Returns (Finite hi)"
  shows "calculateAxisBounds max_arguments values (Some f) =
    Returns (Some
      \<lparr>min_val = js_sub (Finite lo)
         (if js_sub (Finite hi) (Finite lo) = Finite 0
          then (if js_mul (Finite \<bar>lo\<bar>) f = Finite 0 \<or> js_mul (Finite \<bar>lo\<bar>) f = NaN
                then Finite 1 else js_mul (Finite \<bar>lo\<bar>) f)
          else js_mul (js_sub (Finite hi) (Finite lo)) f),
       max_val = js_add (Finite hi)
         (if js_sub (Finite hi) (Finite lo) = Finite 0
          then (if js_mul (Finite \<bar>lo\<bar>) f = Finite 0 \<or> js_mul (Finite \<bar>lo\<bar>) f = NaN
                then Finite 1 else js_mul (Finite \<bar>lo\<bar>) f)
          else js_mul (js_sub (Finite hi) (Finite lo)) f)\<rparr>)"
  using assms(1)
  by (auto simp add: calculateAxisBounds_def default_param_def assms(2,3)
      js_strict_eq_def js_or_def js_truthy_def Let_def)

lemma calculateAxisBounds_Finite:
  assumes "vs \<noteq> []" and "length vs \<le> max_arguments"
  shows "calculateAxisBounds max_arguments (map Finite vs) (Some f) =
    Returns (Some
      \<lparr>min_val = js_sub (Finite (Min (set vs)))
         (if js_sub (Finite (Max (set vs))) (Finite (Min (set vs))) = Finite 0
          then (if js_mul (Finite \<bar>Min (set vs)\<bar>) f = Finite 0
                   \<or> js_mul (Finite \<bar>Min (set vs)\<bar>) f = NaN
                then Finite 1 else js_mul (Finite \<bar>Min (set vs)\<bar>) f)
          else js_mul (js_sub (Finite (Max (set vs))) (Finite (Min (set vs)))) f),
       max_val = js_add (Finite (Max (set vs)))
         (if js_sub (Finite (Max (set vs))) (Finite (Min (set vs))) = Finite 0
          then (if js_mul (Finite \<bar>Min (set vs)\<bar>) f = Finite 0
                   \<or> js_mul (Finite \<bar>Min (set vs)\<bar>) f = NaN
                then Finite 1 else js_mul (Finite \<bar>Min (set vs)\<bar>) f)
          else js_mul (js_sub (Finite (Max (set vs))) (Finite (Min (set vs)))) f)\<rparr>)"
proof -
  have "map Finite vs \<noteq> []" using assms(1) by simp
  from calculateAxisBounds_min_max [OF this Math_min_Finite [OF assms] Math_max_Finite [OF assms]]
  show ?thesis .
qed

lemma calculateAxisBounds_default:
  "calculateAxisBounds max_arguments values None =
   calculateAxisBounds max_arguments values (Some (fl (5 / 100)))"
  by (simp add: calculateAxisBounds_def default_param_def)

lemma calculateAxisBounds_single:
  assumes "1 \<le> max_arguments"
  shows "calculateAxisBounds max_arguments [Finite a] (Some f) =
    Returns (Some
      \<lparr>min_val = js_sub (Finite a)
         (if js_mul (Finite \<bar>a\<bar>) f = Finite 0 \<or> js_mul (Finite \<bar>a\<bar>) f = NaN
          then Finite 1 else js_mul (Finite \<bar>a\<bar>) f),
       max_val = js_add (Finite a)
         (if js_mul (Finite \<bar>a\<bar>) f = Finite 0 \<or> js_mul (Finite \<bar>a\<bar>) f = NaN
          then Finite 1 else js_mul (Finite \<bar>a\<bar>) f)\<rparr>)"
  using calculateAxisBounds_Finite [of "[a]" max_arguments f] assms
  by (simp add: js_sub_Finite fl_0)

lemma fl_5_100: "fl (5 / 100) = Finite (3602879701896397 / 2 ^ 56)"
  by (simp add: fl_eval)

lemma fl_1_20: "fl (1 / 20) = Finite (3602879701896397 / 2 ^ 56)"
  using fl_5_100 by simp

lemma range_zero_iff:
  assumes "is_double lo" and "is_double hi"
  shows "js_sub (Finite hi) (Finite lo) = Finite 0 \<longleftrightarrow> hi = lo"
  using fl_diff_nonzero [OF assms(2,1)] by (auto simp: js_sub_Finite fl_0)

lemma rne_near:
  assumes "0 \<le> d" and "d < 1 / 2"
  shows "rne (of_int k + d) = k"
proof -
  have "\<lfloor>of_int k + d\<rfloor> = k" using assms by (intro floor_unique) auto
  then show ?thesis using assms by (simp add: rne_def)
qed

lemma MIN_VALUE_small: "Number_MIN_VALUE < 2 powi (- 1022)" "Number_MIN_VALUE < 1 / 2 ^ 60"
proof -
  show "Number_MIN_VALUE < 2 powi (- 1022)"
    unfolding Number_MIN_VALUE_def by (rule power_int_strict_increasing) simp_all
  have "Number_MIN_VALUE < 2 powi (- 60)"
    unfolding Number_MIN_VALUE_def by (rule power_int_strict_increasing) simp_all
  then show "Number_MIN_VALUE < 1 / 2 ^ 60" by (simp add: power_int_minus_divide)
qed

lemma is_double_MIN_VALUE: "is_double Number_MIN_VALUE"
proof -
  have nz: "Number_MIN_VALUE \<noteq> 0" using MIN_VALUE_pos by simp
  have "\<bar>Number_MIN_VALUE\<bar> < 2 powi (- 1022)" using MIN_VALUE_pos MIN_VALUE_small(1) by simp
  with nz have "fl Number_MIN_VALUE =
      Finite (of_int (rne (Number_MIN_VALUE / Number_MIN_VALUE)) * Number_MIN_VALUE)"
    by (rule fl_subnormal)
  then show ?thesis using nz by (simp add: is_double_def rne_def)
qed

lemma fl_MIN_VALUE_times:
  assumes "0 < c" and "c < 1 / 2"
  shows "fl (Number_MIN_VALUE * c) = Finite 0"
proof -
  note pos = MIN_VALUE_pos
  have "\<bar>Number_MIN_VALUE * c\<bar> = Number_MIN_VALUE * c" using pos assms by simp
  also have "\<dots> < Number_MIN_VALUE * 1" using pos assms by (intro mult_strict_left_mono) simp_all
  finally have "\<bar>Number_MIN_VALUE * c\<bar> < 2 powi (- 1022)" using MIN_VALUE_small(1) by simp
  moreover have "Number_MIN_VALUE * c \<noteq> 0" using pos assms by simp
  ultimately have "fl (Number_MIN_VALUE * c) =
      Finite (of_int (rne (Number_MIN_VALUE * c / Number_MIN_VALUE)) * Number_MIN_VALUE)"
    by (intro fl_subnormal)
  moreover have "rne c = 0" using rne_near [of c 0] assms by simp
  ultimately show ?thesis using pos by simp
qed

lemma fl_one_plus_MIN_VALUE: "fl (Number_MIN_VALUE + 1) = Finite 1"
proof -
  note pos = MIN_VALUE_pos and small = MIN_VALUE_small(2)
  have "fl (Number_MIN_VALUE + 1) = Finite (of_int (2 ^ 52) * 2 powi (0 - 52))"
  proof (rule fl_eqI)
    show "2 powi 0 \<le> \<bar>Number_MIN_VALUE + 1\<bar>" using pos by simp
    show "\<bar>Number_MIN_VALUE + 1\<bar> < 2 powi (0 + 1)" using pos small by simp
    have "(Number_MIN_VALUE + 1) / 2 powi (0 - 52) = of_int (2 ^ 52) + Number_MIN_VALUE * 2 ^ 52"
      by (simp add: algebra_simps)
    moreover have "Number_MIN_VALUE * 2 ^ 52 < 1 / 2" using small by simp
    moreover have "0 \<le> Number_MIN_VALUE * 2 ^ 52" using pos by simp
    ultimately show "rne ((Number_MIN_VALUE + 1) / 2 powi (0 - 52)) = 2 ^ 52"
      by (simp only: rne_near)
    show "\<bar>real_of_int (2 ^ 52) * 2 powi (0 - 52)\<bar> < 2 powi 1024" by simp
  qed simp
  then show ?thesis by simp
qed

lemma fl_MIN_VALUE_minus_one: "fl (Number_MIN_VALUE - 1) = Finite (- 1)"
proof -
  note pos = MIN_VALUE_pos and small = MIN_VALUE_small(2)
  have "fl (Number_MIN_VALUE - 1) = Finite (of_int (- (2 ^ 53)) * 2 powi (- 1 - 52))"
  proof (rule fl_eqI)
    show "2 powi - 1 \<le> \<bar>Number_MIN_VALUE - 1\<bar>" using pos small by simp
    show "\<bar>Number_MIN_VALUE - 1\<bar> < 2 powi (- 1 + 1)" using pos small by simp
    have "(Number_MIN_VALUE - 1) / 2 powi (- 1 - 52) = of_int (- (2 ^ 53)) + Number_MIN_VALUE * 2 ^ 53"
      by (simp add: algebra_simps)
    moreover have "Number_MIN_VALUE * 2 ^ 53 < 1 / 2" using small by simp
    moreover have "0 \<le> Number_MIN_VALUE * 2 ^ 53" using pos by simp
    ultimately show "rne ((Number_MIN_VALUE - 1) / 2 powi (- 1 - 52)) = - (2 ^ 53)"
      by (simp only: rne_near)
    show "\<bar>real_of_int (- (2 ^ 53)) * 2 powi (- 1 - 52)\<bar> < 2 powi 1024" by simp
  qed simp
  then show ?thesis by simp
qed

text \<open>
  C2, as stated, gives \<open>[v - 0.05 |v|, v + 0.05 |v|]\<close> for every single value
  \<open>v \<noteq> 0\<close>. For the smallest positive double the product \<open>|v| * 0.05\<close> rounds to
  zero, the fallback padding \<open>1\<close> is taken, and the result is \<open>[-1, 1]\<close>.
\<close>

theorem C2_underflow_counterexample:
  "is_double Number_MIN_VALUE \<and> Number_MIN_VALUE \<noteq> 0
   \<and> calculateAxisBounds 65535 [Finite Number_MIN_VALUE] None =
       Returns (Some \<lparr>min_val = Finite (- 1), max_val = Finite 1\<rparr>)
   \<and> Finite (- 1) \<noteq> Finite (Number_MIN_VALUE - 5 / 100 * \<bar>Number_MIN_VALUE\<bar>)
   \<and> Finite (- 1) \<noteq> js_sub (Finite Number_MIN_VALUE) (js_mul (fl (5 / 100)) (Finite \<bar>Number_MIN_VALUE\<bar>))"
proof -
  note pos = MIN_VALUE_pos and d = is_double_MIN_VALUE
  have nz: "Number_MIN_VALUE \<noteq> 0" using pos by simp
  have prod: "fl (Number_MIN_VALUE * (3602879701896397 / 2 ^ 56)) = Finite 0"
    by (rule fl_MIN_VALUE_times) simp_all
  have mul: "js_mul (Finite \<bar>Number_MIN_VALUE\<bar>) (fl (1 / 20)) = Finite 0"
    using pos prod by (simp add: fl_1_20)
  have mul': "js_mul (fl (1 / 20)) (Finite \<bar>Number_MIN_VALUE\<bar>) = Finite 0"
    using pos prod by (simp add: fl_1_20 mult.commute)
  have res: "calculateAxisBounds 65535 [Finite Number_MIN_VALUE] None =
       Returns (Some \<lparr>min_val = Finite (- 1), max_val = Finite 1\<rparr>)"
    by (simp add: calculateAxisBounds_default calculateAxisBounds_single mul js_sub_Finite
        fl_MIN_VALUE_minus_one fl_one_plus_MIN_VALUE)
  have "Number_MIN_VALUE - 5 / 100 * \<bar>Number_MIN_VALUE\<bar> \<noteq> - 1" using pos by simp
  moreover have "js_sub (Finite Number_MIN_VALUE) (js_mul (fl (5 / 100)) (Finite \<bar>Number_MIN_VALUE\<bar>))
      = Finite Number_MIN_VALUE"
    using d by (simp add: mul' js_sub_Finite is_double_def)
  ultimately show ?thesis using d nz res pos by simp
qed

text \<open>
  C2, amended. \<open>calculateAxisBounds\<close> returns nothing for the empty list. For a
  non-empty list of finite doubles that is short enough to be spread into the
  arguments of one call, and for every padding fraction, it returns
  \<open>{min: lo - padding, max: hi + padding}\<close> with \<open>lo\<close> and \<open>hi\<close> the least and the
  greatest value and every operation a double operation: \<open>padding\<close> is
  \<open>range * fraction\<close> when \<open>range = hi - lo\<close> is not zero (which, for doubles, is
  when \<open>hi \<noteq> lo\<close>), and otherwise \<open>|lo| * fraction\<close>, or \<open>1\<close> when that product is
  zero or \<open>NaN\<close>, as it also is when it underflows. Without a fraction argument the
  fraction is the double \<open>0.05\<close>: a single value \<open>0\<close> gives \<open>[-1, 1]\<close>, and a single
  value \<open>v\<close> gives \<open>[v - p, v + p]\<close> for the double product \<open>p = |v| * 0.05\<close>,
  provided \<open>p\<close> is not zero.
\<close>

theorem C2_calculateAxisBounds:
  "calculateAxisBounds max_arguments [] pp = Returns None
   \<and> (vs \<noteq> [] \<and> length vs \<le> max_arguments \<longrightarrow>
        calculateAxisBounds max_arguments (map Finite vs) (Some f) =
          Returns (Some
            \<lparr>min_val = js_sub (Finite (Min (set vs)))
               (if js_sub (Finite (Max (set vs))) (Finite (Min (set vs))) = Finite 0
                then (if js_mul (Finite \<bar>Min (set vs)\<bar>) f = Finite 0
                         \<or> js_mul (Finite \<bar>Min (set vs)\<bar>) f = NaN
                      then Finite 1 else js_mul (Finite \<bar>Min (set vs)\<bar>) f)
                else js_mul (js_sub (Finite (Max (set vs))) (Finite (Min (set vs)))) f),
             max_val = js_add (Finite (Max (set vs)))
               (if js_sub (Finite (Max (set vs))) (Finite (Min (set vs))) = Finite 0
                then (if js_mul (Finite \<bar>Min (set vs)\<bar>) f = Finite 0
                         \<or> js_mul (Finite \<bar>Min (set vs)\<bar>) f = NaN
                      then Finite 1 else js_mul (Finite \<bar>Min (set vs)\<bar>) f)
                else js_mul (js_sub (Finite (Max (set vs))) (Finite (Min (set vs)))) f)\<rparr>))
   \<and> (vs \<noteq> [] \<and> list_all is_double vs \<longrightarrow>
        (js_sub (Finite (Max (set vs))) (Finite (Min (set vs))) = Finite 0
           \<longleftrightarrow> Max (set vs) = Min (set vs)))
   \<and> calculateAxisBounds max_arguments (map Finite vs) None =
       calculateAxisBounds max_arguments (map Finite vs) (Some (fl (5 / 100)))
   \<and> (1 \<le> max_arguments \<longrightarrow>
        calculateAxisBounds max_arguments [Finite 0] None =
          Returns (Some \<lparr>min_val = Finite (- 1), max_val = Finite 1\<rparr>))
   \<and> (1 \<le> max_arguments \<and> js_mul (Finite \<bar>a\<bar>) (fl (5 / 100)) = Finite p \<and> p \<noteq> 0 \<longrightarrow>
        calculateAxisBounds max_arguments [Finite a] None =
          Returns (Some \<lparr>min_val = js_sub (Finite a) (Finite p),
                         max_val = js_add (Finite a) (Finite p)\<rparr>))"
proof (intro conjI impI)
  show "calculateAxisBounds max_arguments [] pp = Returns None"
    by (simp add: calculateAxisBounds_def)
next
  assume "vs \<noteq> [] \<and> length vs \<le> max_arguments"
  then have ne: "vs \<noteq> []" and le: "length vs \<le> max_arguments" by simp_all
  show "calculateAxisBounds max_arguments (map Finite vs) (Some f) =
          Returns (Some
            \<lparr>min_val = js_sub (Finite (Min (set vs)))
               (if js_sub (Finite (Max (set vs))) (Finite (Min (set vs))) = Finite 0
                then (if js_mul (Finite \<bar>Min (set vs)\<bar>) f = Finite 0
                         \<or> js_mul (Finite \<bar>Min (set vs)\<bar>) f = NaN
                      then Finite 1 else js_mul (Finite \<bar>Min (set vs)\<bar>) f)
                else js_mul (js_sub (Finite (Max (set vs))) (Finite (Min (set vs)))) f),
             max_val = js_add (Finite (Max (set vs)))
               (if js_sub (Finite (Max (set vs))) (Finite (Min (set vs))) = Finite 0
                then (if js_mul (Finite \<bar>Min (set vs)\<bar>) f = Finite 0
                         \<or> js_mul (Finite \<bar>Min (set vs)\<bar>) f = NaN
                      then Finite 1 else js_mul (Finite \<bar>Min (set vs)\<bar>) f)
                else js_mul (js_sub (Finite (Max (set vs))) (Finite (Min (set vs)))) f)\<rparr>)"
    by (rule calculateAxisBounds_Finite [OF ne le])
next
  assume "vs \<noteq> [] \<and> list_all is_double vs"
  then have ne: "vs \<noteq> []" and all: "\<forall>a \<in> set vs. is_double a" by (simp_all add: list_all_iff)
  have "Min (set vs) \<in> set vs" "Max (set vs) \<in> set vs" using ne by simp_all
  with all have "is_double (Min (set vs))" "is_double (Max (set vs))" by blast+
  then show "js_sub (Finite (Max (set vs))) (Finite (Min (set vs))) = Finite 0
           \<longleftrightarrow> Max (set vs) = Min (set vs)"
    by (rule range_zero_iff)
next
  show "calculateAxisBounds max_arguments (map Finite vs) None =
       calculateAxisBounds max_arguments (map Finite vs) (Some (fl (5 / 100)))"
    by (rule calculateAxisBounds_default)
next
  assume "1 \<le> max_arguments"
  then show "calculateAxisBounds max_arguments [Finite 0] None =
          Returns (Some \<lparr>min_val = Finite (- 1), max_val = Finite 1\<rparr>)"
    using is_double_of_int [of 1] is_double_of_int [of "- 1"]
    by (simp add: calculateAxisBounds_default calculateAxisBounds_single fl_0 fl_1_20 js_sub_Finite
        is_double_def)
next
  assume "1 \<le> max_arguments \<and> js_mul (Finite \<bar>a\<bar>) (fl (5 / 100)) = Finite p \<and> p \<noteq> 0"
  then have m: "1 \<le> max_arguments" and pr: "js_mul (Finite \<bar>a\<bar>) (fl (5 / 100)) = Finite p"
    and p0: "p \<noteq> 0" by simp_all
  show "calculateAxisBounds max_arguments [Finite a] None =
          Returns (Some \<lparr>min_val = js_sub (Finite a) (Finite p),
                         max_val = js_add (Finite a) (Finite p)\<rparr>)"
    unfolding calculateAxisBounds_default calculateAxisBounds_single [OF m] pr using p0 by simp
qed

theorem C2_calculateAxisBounds_witness:
  "[0, 100 :: real] \<noteq> [] \<and> length [0, 100 :: real] \<le> 65535 \<and> list_all is_double [0, 100]
   \<and> fl (5 / 100) = Finite (3602879701896397 / 2 ^ 56)
   \<and> calculateAxisBounds 65535 [Finite 0, Finite 100] None =
       Returns (Some \<lparr>min_val = Finite (- 5), max_val = Finite 105\<rparr>)
   \<and> (1::nat) \<le> 65535
   \<and> js_mul (Finite \<bar>50\<bar>) (fl (5 / 100)) = Finite (5 / 2) \<and> (5 / 2 :: real) \<noteq> 0
   \<and> calculateAxisBounds 65535 [Finite 50] None =
       Returns (Some \<lparr>min_val = Finite (95 / 2), max_val = Finite (105 / 2)\<rparr>)"
proof -
  have d: "list_all is_double [0, 100]"
    using is_double_of_int [of 0] is_double_of_int [of 100] by simp
  have m: "js_mul (Finite \<bar>50\<bar>) (fl (5 / 100)) = Finite (5 / 2)"
    by (simp add: fl_1_20) (simp add: fl_eval)
  have r: "js_sub (Finite 100) (Finite 0) = Finite 100"
    "js_mul (Finite 100) (fl (1 / 20)) = Finite 5"
    "js_sub (Finite 0) (Finite 5) = Finite (- 5)"
    "js_add (Finite 100) (Finite 5) = Finite 105"
    "js_sub (Finite 50) (Finite (5 / 2)) = Finite (95 / 2)"
    "js_add (Finite 50) (Finite (5 / 2)) = Finite (105 / 2)"
    by (simp_all add: js_sub_Finite fl_1_20) (simp_all add: fl_eval)
  show ?thesis
    using C2_calculateAxisBounds [of 65535 None "[0, 100]" "fl (5 / 100)" 50 "5 / 2"] d m
    by (simp add: r fl_1_20) (simp add: js_sub_Finite fl_eval)
qed

text \<open>
  C10, as stated, gives \<open>{min: v - 1, max: v + 1}\<close> for every uniform list. The
  padding \<open>1\<close> is added and subtracted in doubles: at \<open>v = 2^54\<close> both \<open>v - 1\<close> and
  \<open>v + 1\<close> round back to \<open>v\<close>, and the bounds are \<open>{min: v, max: v}\<close>.
\<close>

theorem C10_large_value_counterexample:
  "is_double 18014398509481984
   \<and> calculateAxisBounds 65535 [Finite 18014398509481984] (Some (Finite 0)) =
       Returns (Some \<lparr>min_val = Finite 18014398509481984, max_val = Finite 18014398509481984\<rparr>)
   \<and> Finite 18014398509481984 \<noteq> Finite (18014398509481984 - 1)
   \<and> Finite 18014398509481984 \<noteq> Finite (18014398509481984 + 1)"
proof -
  have e: "fl 18014398509481984 = Finite 18014398509481984"
    "fl 18014398509481983 = Finite 18014398509481984"
    "fl 18014398509481985 = Finite 18014398509481984"
    by (simp_all add: fl_eval)
  show ?thesis
    by (simp add: calculateAxisBounds_single fl_0 js_sub_Finite e is_double_def)
qed

text \<open>
  C10, amended. For a non-empty list whose values all equal \<open>v\<close>, short enough to
  be spread into the arguments of one call, and an explicit padding fraction of
  \<open>0\<close>, the fallback padding \<open>1\<close> is taken (also when \<open>v\<close> is not zero) and the
  result is \<open>{min: v - 1, max: v + 1}\<close> with the difference and the sum rounded to
  doubles: exactly \<open>v - 1\<close> and \<open>v + 1\<close> when these are doubles.
\<close>

theorem C10_uniform_values_zero_fraction:
  assumes "vs \<noteq> []" and "\<forall>a \<in> set vs. a = v" and "length vs \<le> max_arguments"
  shows "calculateAxisBounds max_arguments (map Finite vs) (Some (Finite 0)) =
           Returns (Some \<lparr>min_val = js_sub (Finite v) (Finite 1),
                          max_val = js_add (Finite v) (Finite 1)\<rparr>)
    \<and> (is_double (v - 1) \<and> is_double (v + 1) \<longrightarrow>
         calculateAxisBounds max_arguments (map Finite vs) (Some (Finite 0)) =
           Returns (Some \<lparr>min_val = Finite (v - 1), max_val = Finite (v + 1)\<rparr>))"
proof -
  from assms(1,2) have "set vs = {v}" by (cases vs) auto
  then have mm: "Min (set vs) = v" "Max (set vs) = v" by simp_all
  have r: "calculateAxisBounds max_arguments (map Finite vs) (Some (Finite 0)) =
           Returns (Some \<lparr>min_val = js_sub (Finite v) (Finite 1),
                          max_val = js_add (Finite v) (Finite 1)\<rparr>)"
    unfolding calculateAxisBounds_Finite [OF assms(1,3)] mm
    by (simp add: js_sub_Finite fl_0)
  show ?thesis unfolding r by (simp add: js_sub_Finite is_double_def)
qed

theorem C10_uniform_values_zero_fraction_witness:
  "[7, 7, 7 :: real] \<noteq> [] \<and> list_all (\<lambda>a. a = 7) [7, 7, 7 :: real]
   \<and> length [7, 7, 7 :: real] \<le> 65535 \<and> is_double (7 - 1) \<and> is_double (7 + 1)
   \<and> calculateAxisBounds 65535 [Finite 7, Finite 7, Finite 7] (Some (Finite 0)) =
       Returns (Some \<lparr>min_val = Finite 6, max_val = Finite 8\<rparr>)"
proof -
  have d: "is_double (7 - 1)" "is_double (7 + 1)"
    using is_double_of_int [of 6] is_double_of_int [of 8] by simp_all
  show ?thesis
    using C10_uniform_values_zero_fraction [of "[7, 7, 7]" 7 65535] d
    by (simp add: is_double_def js_sub_Finite)
qed

section \<open>Tick generation: properties\<close>

lemma count_minus_one:
  assumes "1 \<le> n" and "n \<le> 2 ^ 32"
  shows "js_sub (Finite (of_int n)) (Finite 1) = Finite (of_int (n - 1))"
proof -
  have "\<bar>n - 1\<bar> \<le> 2 ^ 53" using assms by simp
  then have "is_double (of_int (n - 1))" by (rule is_double_of_int)
  then show ?thesis by (simp add: js_sub_Finite is_double_def)
qed

lemma generateTicks_Returns:
  assumes "1 \<le> n" and "n \<le> 2 ^ 32 - 1"
  shows "generateTicks \<lparr>min_val = lo, max_val = hi\<rparr> (Some n) =
     Returns (map (\<lambda>i. js_add lo (js_mul (Finite (real i))
                                (js_div (js_sub hi lo) (Finite (real_of_int n - 1)))))
                [0..<nat n])"
proof -
  have "js_sub (Finite (of_int n)) (Finite 1) = Finite (real_of_int n - 1)"
    using count_minus_one [of n] assms by simp
  then show ?thesis using assms(2)
    by (simp add: generateTicks_def default_param_def)
qed

text \<open>
  C7, as stated, ends the ticks exactly at \<open>max\<close>. The ticks are \<open>min + i * step\<close>
  in doubles. With the bounds \<open>[-1, 2^53]\<close> and two ticks the range \<open>2^53 + 1\<close>
  rounds to \<open>2^53\<close>, and the result is \<open>[-1, 2^53 - 1]\<close>, not \<open>[min, max]\<close>; with
  the bounds \<open>[0, 1]\<close> and fifty ticks the step is the double nearest to \<open>1/49\<close>,
  and the last tick, \<open>49\<close> times the step, is \<open>1 - 2^-53\<close>.
\<close>

theorem C7_last_tick_counterexample:
  "is_double (- 1) \<and> is_double 9007199254740992
   \<and> generateTicks \<lparr>min_val = Finite (- 1), max_val = Finite 9007199254740992\<rparr> (Some 2) =
       Returns [Finite (- 1), Finite 9007199254740991]
   \<and> Finite 9007199254740991 \<noteq> Finite 9007199254740992
   \<and> (case generateTicks \<lparr>min_val = Finite 0, max_val = Finite 1\<rparr> (Some 50) of
         Returns ticks \<Rightarrow> last ticks
       | Throws e \<Rightarrow> NaN) = Finite (1 - 1 / 2 ^ 53)
   \<and> Finite (1 - 1 / 2 ^ 53) \<noteq> Finite 1"
proof -
  have d: "is_double (- 1)" "is_double 9007199254740992"
    using is_double_of_int [of "- 1"] is_double_of_int [of 9007199254740992] by simp_all
  have e: "fl 9007199254740993 = Finite 9007199254740992"
    "fl 9007199254740992 = Finite 9007199254740992"
    "fl 9007199254740991 = Finite 9007199254740991"
    "fl (- 1) = Finite (- 1)"
    by (simp_all add: fl_eval)
  have two: "generateTicks \<lparr>min_val = Finite (- 1), max_val = Finite 9007199254740992\<rparr> (Some 2) =
       Returns [Finite (- 1), Finite 9007199254740991]"
    by (simp add: generateTicks_Returns upt_conv_Cons nat_2 numeral_2_eq_2 js_sub_Finite e fl_0)
  have f: "fl (1 / 49) = Finite (5882252574524729 / 2 ^ 58)"
    "fl (49 * (5882252574524729 / 2 ^ 58)) = Finite (1 - 1 / 2 ^ 53)"
    "fl (1 - 1 / 2 ^ 53) = Finite (1 - 1 / 2 ^ 53)" "fl 1 = Finite 1"
    by (simp_all add: fl_eval)
  have "last [0..<nat 50] = 49" by (simp add: last_upt)
  then have fifty: "(case generateTicks \<lparr>min_val = Finite 0, max_val = Finite 1\<rparr> (Some 50) of
         Returns ticks \<Rightarrow> last ticks
       | Throws e \<Rightarrow> NaN) = Finite (1 - 1 / 2 ^ 53)"
    using f by (simp add: generateTicks_Returns last_map js_sub_Finite)
  show ?thesis using d two fifty by simp
qed

text \<open>
  C7, amended. For finite bounds and a tick count \<open>n\<close> with \<open>2 \<le> n \<le> 2^32 - 1\<close>,
  \<open>generateTicks\<close> returns \<open>n\<close> values, the \<open>i\<close>-th being \<open>min + i * step\<close> with
  \<open>step = (max - min) / (n - 1)\<close>, every operation a double operation. The first
  value is \<open>min\<close> when the step is finite. The last value is \<open>max\<close>, and for \<open>n = 2\<close>
  the result is \<open>[min, max]\<close>, when the range and the step are computed without
  rounding (as for the bounds \<open>[0, 100]\<close> and five ticks); otherwise the last value
  can differ from \<open>max\<close> by the rounding.
\<close>

theorem C7_generateTicks:
  assumes "2 \<le> n" and "n \<le> 2 ^ 32 - 1"
  shows "\<exists>ticks. generateTicks \<lparr>min_val = Finite lo, max_val = Finite hi\<rparr> (Some n) = Returns ticks
    \<and> length ticks = nat n
    \<and> (\<forall>i < nat n. ticks ! i =
          js_add (Finite lo) (js_mul (Finite (real i))
            (js_div (js_sub (Finite hi) (Finite lo)) (Finite (real_of_int n - 1)))))
    \<and> (is_double lo
         \<and> Number_isFinite (js_div (js_sub (Finite hi) (Finite lo)) (Finite (real_of_int n - 1)))
         \<longrightarrow> hd ticks = Finite lo)
    \<and> (is_double (hi - lo) \<and> is_double ((hi - lo) / (real_of_int n - 1)) \<and> is_double hi
         \<longrightarrow> last ticks = Finite hi)
    \<and> (n = 2 \<and> is_double lo \<and> is_double (hi - lo) \<and> is_double hi
         \<longrightarrow> ticks = [Finite lo, Finite hi])"
proof -
  define step where "step = js_div (js_sub (Finite hi) (Finite lo)) (Finite (real_of_int n - 1))"
  define tick where "tick = (\<lambda>i. js_add (Finite lo) (js_mul (Finite (real i)) step))"
  define ticks where "ticks = map tick [0..<nat n]"
  have n1: "1 \<le> n" and pos: "0 < nat n" and ne: "real_of_int n - 1 \<noteq> 0" using assms(1) by auto
  have ret: "generateTicks \<lparr>min_val = Finite lo, max_val = Finite hi\<rparr> (Some n) = Returns ticks"
    using generateTicks_Returns [OF n1 assms(2), of "Finite lo" "Finite hi"]
    by (simp add: ticks_def tick_def step_def)
  have len: "length ticks = nat n" by (simp add: ticks_def)
  have nth: "\<forall>i < nat n. ticks ! i = tick i" by (simp add: ticks_def)
  have hd: "hd ticks = tick 0" using pos by (simp add: ticks_def hd_map upt_conv_Cons)
  have "last [0..<nat n] = nat n - 1" using pos by (simp add: last_upt)
  then have last: "last ticks = tick (nat n - 1)" using pos by (simp add: ticks_def last_map)
  have rl: "real (nat n - Suc 0) = real_of_int n - 1" using assms(1) by (simp add: of_nat_diff)
  have first: "hd ticks = Finite lo" if "is_double lo" and "Number_isFinite step"
  proof -
    from that(2) obtain s where "step = Finite s" by (cases step) simp_all
    then show ?thesis using that(1) by (simp add: hd tick_def fl_0 is_double_def)
  qed
  have exact_step: "step = Finite ((hi - lo) / (real_of_int n - 1))"
    if "is_double (hi - lo)" and "is_double ((hi - lo) / (real_of_int n - 1))"
    using that ne by (simp add: step_def js_sub_Finite is_double_def)
  have final: "last ticks = Finite hi"
    if "is_double (hi - lo)" and "is_double ((hi - lo) / (real_of_int n - 1))" and "is_double hi"
  proof -
    have "(real_of_int n - 1) * ((hi - lo) / (real_of_int n - 1)) = hi - lo" using ne by simp
    then have "js_mul (Finite (real_of_int n - 1)) step = Finite (hi - lo)"
      using that(1) by (simp add: exact_step [OF that(1,2)] is_double_def)
    moreover have "lo + (hi - lo) = hi" by simp
    ultimately show ?thesis using that(3) by (simp add: last tick_def rl is_double_def)
  qed
  have pair: "ticks = [Finite lo, Finite hi]"
    if "n = 2" and "is_double lo" and "is_double (hi - lo)" and "is_double hi"
  proof -
    have s: "step = Finite (hi - lo)"
      using that(1,3) by (simp add: step_def js_sub_Finite is_double_def)
    have "ticks = [tick 0, tick 1]"
      using that(1) by (simp add: ticks_def upt_conv_Cons nat_2 numeral_2_eq_2)
    moreover have "tick 0 = Finite lo" using that(2) by (simp add: tick_def s fl_0 is_double_def)
    moreover have "tick 1 = Finite hi" using that(3,4) by (simp add: tick_def s is_double_def)
    ultimately show ?thesis by simp
  qed
  show ?thesis
    using ret len nth first final pair unfolding tick_def step_def by blast
qed

theorem C7_generateTicks_witness:
  "(2::int) \<le> 5 \<and> (5::int) \<le> 2 ^ 32 - 1
   \<and> is_double 0 \<and> is_double (100 - 0) \<and> is_double ((100 - 0) / (real_of_int 5 - 1))
   \<and> is_double 100
   \<and> generateTicks \<lparr>min_val = Finite 0, max_val = Finite 100\<rparr> (Some 5) =
       Returns [Finite 0, Finite 25, Finite 50, Finite 75, Finite 100]
   \<and> last [Finite 0, Finite 25, Finite 50, Finite 75, Finite 100] = Finite 100"
proof -
  have d: "is_double 0" "is_double (100 - 0)" "is_double ((100 - 0) / (real_of_int 5 - 1))"
    "is_double 100"
    using is_double_of_int [of 0] is_double_of_int [of 100] is_double_of_int [of 25] by simp_all
  have e: "fl 100 = Finite 100" "fl 25 = Finite 25" "fl 50 = Finite 50" "fl 75 = Finite 75"
    by (simp_all add: fl_eval)
  have g: "generateTicks \<lparr>min_val = Finite 0, max_val = Finite 100\<rparr> (Some 5) =
       Returns [Finite 0, Finite 25, Finite 50, Finite 75, Finite 100]"
    by (simp add: generateTicks_Returns js_sub_Finite upt_conv_Cons nat_numeral eval_nat_numeral
        e fl_0)
  show ?thesis
    using C7_generateTicks [of 5 0 100] d g by simp
qed

section \<open>Value extraction: properties\<close>

lemma extractNumericValue_caught:
  "extractNumericValue_try N e pid = Throws (Error msg) \<Longrightarrow>
   extractNumericValue N e pid =
     Returns (NumFailure (''Failed to read property '' @ quoted pid @ '': '' @ msg))"
  by (simp add: extractNumericValue_def)

lemma extractNumericValue_uncaught:
  "extractNumericValue_try N e pid = Throws (Unprintable thrown) \<Longrightarrow>
   extractNumericValue N e pid = Throws thrown"
  by (simp add: extractNumericValue_def)

lemma extractNumericValue_raises_iff:
  "(extractNumericValue N e pid = Throws thrown) =
   (extractNumericValue_try N e pid = Throws (Unprintable thrown))"
proof (cases "extractNumericValue_try N e pid")
  case (Throws err)
  then show ?thesis by (cases err) (simp_all add: extractNumericValue_def)
next
  case (Returns r)
  then show ?thesis by (simp add: extractNumericValue_def)
qed

lemma extractNumericValue_success_finite:
  "extractNumericValue N e pid = Returns (NumSuccess v) \<Longrightarrow> Number_isFinite v"
  by (auto simp: extractNumericValue_def extractNumericValue_try_def Let_def
      split: js_call.splits bool.splits if_splits)

lemma extractNumericValue_results:
  "(getValue e pid = Throws (Error msg) \<longrightarrow>
      extractNumericValue N e pid =
        Returns (NumFailure (''Failed to read property '' @ quoted pid @ '': '' @ msg)))
   \<and> (getValue e pid = Returns JNull \<or> getValue e pid = Returns JUndefined
        \<or> getValue e pid = Returns (JObject (Some (Returns True)) ts) \<longrightarrow>
      extractNumericValue N e pid =
        Returns (NumFailure (''Property '' @ quoted pid @ '' is empty'')))
   \<and> (getValue e pid = Returns (JObject (Some (Throws (Error msg))) ts)
        \<or> getValue e pid = Returns (JObject None (Throws (Error msg)))
        \<or> getValue e pid = Returns (JObject (Some (Returns False)) (Throws (Error msg))) \<longrightarrow>
      extractNumericValue N e pid =
        Returns (NumFailure (''Failed to read property '' @ quoted pid @ '': '' @ msg)))
   \<and> (getValue e pid = Returns (JObject None (Returns s))
        \<or> getValue e pid = Returns (JObject (Some (Returns False)) (Returns s)) \<longrightarrow>
      (N s = NaN \<longrightarrow>
         extractNumericValue N e pid =
           Returns (NumFailure (''Property '' @ quoted pid @ '' value '' @ quoted s
                                 @ '' is not numeric'')))
      \<and> (N s = PosInfinity \<or> N s = NegInfinity \<longrightarrow>
         extractNumericValue N e pid =
           Returns (NumFailure (''Property '' @ quoted pid @ '' value is not finite'')))
      \<and> (N s = Finite r \<longrightarrow> extractNumericValue N e pid = Returns (NumSuccess (Finite r))))
   \<and> (getValue e pid = Throws (Unprintable thrown)
        \<or> getValue e pid = Returns (JObject (Some (Throws (Unprintable thrown))) ts)
        \<or> getValue e pid = Returns (JObject None (Throws (Unprintable thrown)))
        \<or> getValue e pid = Returns (JObject (Some (Returns False)) (Throws (Unprintable thrown)))
        \<longrightarrow> extractNumericValue N e pid = Throws thrown)"
  by (auto simp: extractNumericValue_def extractNumericValue_try_def)

lemma extractCategoryValue_total:
  "extractCategoryValue e pid = CatFailure \<or> (\<exists>s. extractCategoryValue e pid = CatSuccess s)"
  by (cases "extractCategoryValue e pid") simp_all

text \<open>
  C3. \<open>extractNumericValue\<close> wraps its work in \<open>try\<close>, but the \<open>catch\<close> block calls
  \<open>String(e)\<close> on the thrown value. When \<open>getValue\<close> throws a value that has no
  string conversion (\<open>Object.create(null)\<close>, for which \<open>String\<close> throws a
  \<open>TypeError\<close>), the \<open>TypeError\<close> leaves \<open>extractNumericValue\<close>: it raises and
  returns no result. \<open>extractCategoryValue\<close>, whose \<open>catch\<close> does not look at the
  thrown value, returns its failure on the same entry.
\<close>

theorem C3_extractNumericValue_raises:
  "getValue (mockEntry [''effort'' \<mapsto>
       Throws (Unprintable (Error ''TypeError: Cannot convert object to primitive value''))])
     ''effort'' =
     Throws (Unprintable (Error ''TypeError: Cannot convert object to primitive value''))
   \<and> extractNumericValue mockNumber
        (mockEntry [''effort'' \<mapsto>
           Throws (Unprintable (Error ''TypeError: Cannot convert object to primitive value''))])
        ''effort'' =
       Throws (Error ''TypeError: Cannot convert object to primitive value'')
   \<and> extractCategoryValue
        (mockEntry [''effort'' \<mapsto>
           Throws (Unprintable (Error ''TypeError: Cannot convert object to primitive value''))])
        (Some ''effort'') =
       CatFailure"
  by (simp add: extractNumericValue_def extractNumericValue_try_def extractCategoryValue_def
      extractCategoryValue_try_def mockEntry_def)

section \<open>Point extraction: properties\<close>

text \<open>
  C1, as stated, puts the extraction of X before the test that the Y field is
  configured. The code tests both fields of the configuration first. With X
  configured but empty and Y not configured, the skip reason is that of the Y
  field, not the failure of the X extraction.
\<close>

theorem C1_check_order_counterexample:
  "xAxis \<lparr>xAxis = Some ''effort'', yAxis = None, colorBy = None\<rparr> = Some ''effort''
   \<and> extractNumericValue mockNumber (mockEntry Map.empty) ''effort'' =
       Returns (NumFailure (''Property '' @ quoted ''effort'' @ '' is empty''))
   \<and> entryToPoint mockNumber (mockEntry Map.empty)
        \<lparr>xAxis = Some ''effort'', yAxis = None, colorBy = None\<rparr> =
       Returns (Skipped \<lparr>SkippedEntry.tfile = mockFile ''notes/task.md'' ''task'',
                         reason = ''Y axis property not configured''\<rparr>)
   \<and> entryToPoint mockNumber (mockEntry Map.empty)
        \<lparr>xAxis = Some ''effort'', yAxis = None, colorBy = None\<rparr> \<noteq>
       Returns (Skipped \<lparr>SkippedEntry.tfile = mockFile ''notes/task.md'' ''task'',
                         reason = ''Property '' @ quoted ''effort'' @ '' is empty''\<rparr>)"
  by (simp add: entryToPoint_def extractNumericValue_def extractNumericValue_try_def
      mockEntry_def quoted_def)

text \<open>
  C1, amended. \<open>entryToPoint\<close> checks, in this order and stopping at the first
  failure, whose reason is the skip reason: the X field is configured, the Y field
  is configured, the X extraction succeeds, the Y extraction succeeds. When all four
  hold the result is a point, whatever the category extraction returns: its failure
  makes the category of the point absent.
\<close>

theorem C1_check_order:
  "(xAxis config = None \<longrightarrow>
      entryToPoint N e config =
        Returns (Skipped \<lparr>SkippedEntry.tfile = BasesEntry.tfile e,
                          reason = ''X axis property not configured''\<rparr>))
   \<and> (xAxis config = Some xa \<and> yAxis config = None \<longrightarrow>
      entryToPoint N e config =
        Returns (Skipped \<lparr>SkippedEntry.tfile = BasesEntry.tfile e,
                          reason = ''Y axis property not configured''\<rparr>))
   \<and> (xAxis config = Some xa \<and> yAxis config = Some ya
        \<and> extractNumericValue N e xa = Returns (NumFailure xReason) \<longrightarrow>
      entryToPoint N e config =
        Returns (Skipped \<lparr>SkippedEntry.tfile = BasesEntry.tfile e, reason = xReason\<rparr>))
   \<and> (xAxis config = Some xa \<and> yAxis config = Some ya
        \<and> extractNumericValue N e xa = Returns (NumSuccess xValue)
        \<and> extractNumericValue N e ya = Returns (NumFailure yReason) \<longrightarrow>
      entryToPoint N e config =
        Returns (Skipped \<lparr>SkippedEntry.tfile = BasesEntry.tfile e, reason = yReason\<rparr>))
   \<and> (xAxis config = Some xa \<and> yAxis config = Some ya
        \<and> extractNumericValue N e xa = Returns (NumSuccess xValue)
        \<and> extractNumericValue N e ya = Returns (NumSuccess yValue) \<longrightarrow>
      entryToPoint N e config =
        Returns (Point \<lparr>ScatterPoint.x = xValue, ScatterPoint.y = yValue,
               category = (case extractCategoryValue e (colorBy config) of
                             CatSuccess c \<Rightarrow> Some c
                           | CatFailure \<Rightarrow> None),
               label = basename (BasesEntry.tfile e),
               ScatterPoint.tfile = BasesEntry.tfile e, entry = e\<rparr>))"
  by (simp add: entryToPoint_def)

theorem C1_check_order_witness:
  "entryToPoint mockNumber (mockEntry [''effort'' \<mapsto> mockValue ''2'', ''value'' \<mapsto> mockValue ''8''])
        \<lparr>xAxis = None, yAxis = None, colorBy = None\<rparr> =
       Returns (Skipped \<lparr>SkippedEntry.tfile = mockFile ''notes/task.md'' ''task'',
                reason = ''X axis property not configured''\<rparr>)
   \<and> entryToPoint mockNumber (mockEntry [''effort'' \<mapsto> mockValue ''2'', ''value'' \<mapsto> mockValue ''8''])
        \<lparr>xAxis = Some ''bad'', yAxis = None, colorBy = None\<rparr> =
       Returns (Skipped \<lparr>SkippedEntry.tfile = mockFile ''notes/task.md'' ''task'',
                reason = ''Y axis property not configured''\<rparr>)
   \<and> entryToPoint mockNumber (mockEntry [''effort'' \<mapsto> mockValue ''2'', ''value'' \<mapsto> mockValue ''8''])
        \<lparr>xAxis = Some ''bad'', yAxis = Some ''worse'', colorBy = None\<rparr> =
       Returns (Skipped \<lparr>SkippedEntry.tfile = mockFile ''notes/task.md'' ''task'',
                reason = ''Property '' @ quoted ''bad'' @ '' is empty''\<rparr>)
   \<and> entryToPoint mockNumber (mockEntry [''effort'' \<mapsto> mockValue ''2'', ''value'' \<mapsto> mockValue ''8''])
        \<lparr>xAxis = Some ''effort'', yAxis = Some ''worse'', colorBy = None\<rparr> =
       Returns (Skipped \<lparr>SkippedEntry.tfile = mockFile ''notes/task.md'' ''task'',
                reason = ''Property '' @ quoted ''worse'' @ '' is empty''\<rparr>)
   \<and> entryToPoint mockNumber (mockEntry [''effort'' \<mapsto> mockValue ''2'', ''value'' \<mapsto> mockValue ''8''])
        \<lparr>xAxis = Some ''effort'', yAxis = Some ''value'', colorBy = Some ''status''\<rparr> =
       Returns (Point \<lparr>ScatterPoint.x = Finite 2, ScatterPoint.y = Finite 8, category = None,
              label = ''task'', ScatterPoint.tfile = mockFile ''notes/task.md'' ''task'',
              entry = mockEntry [''effort'' \<mapsto> mockValue ''2'', ''value'' \<mapsto> mockValue ''8'']\<rparr>)"
proof -
  let ?e = "mockEntry [''effort'' \<mapsto> mockValue ''2'', ''value'' \<mapsto> mockValue ''8'']"
  have x_bad: "extractNumericValue mockNumber ?e ''bad'' =
      Returns (NumFailure (''Property '' @ quoted ''bad'' @ '' is empty''))"
    by (simp add: extractNumericValue_def extractNumericValue_try_def mockEntry_def)
  have y_bad: "extractNumericValue mockNumber ?e ''worse'' =
      Returns (NumFailure (''Property '' @ quoted ''worse'' @ '' is empty''))"
    by (simp add: extractNumericValue_def extractNumericValue_try_def mockEntry_def)
  have x_ok: "extractNumericValue mockNumber ?e ''effort'' = Returns (NumSuccess (Finite 2))"
    by (simp add: extractNumericValue_def extractNumericValue_try_def mockEntry_def mockValue_def
        mockNumber_def)
  have y_ok: "extractNumericValue mockNumber ?e ''value'' = Returns (NumSuccess (Finite 8))"
    by (simp add: extractNumericValue_def extractNumericValue_try_def mockEntry_def mockValue_def
        mockNumber_def)
  have cat: "extractCategoryValue ?e (Some ''status'') = CatFailure"
    by (simp add: extractCategoryValue_def extractCategoryValue_try_def mockEntry_def)
  have tf: "BasesEntry.tfile ?e = mockFile ''notes/task.md'' ''task''"
    by (simp add: mockEntry_def)
  show ?thesis
    using
      C1_check_order [of "\<lparr>xAxis = None, yAxis = None, colorBy = None\<rparr>" mockNumber ?e]
      C1_check_order [of "\<lparr>xAxis = Some ''bad'', yAxis = None, colorBy = None\<rparr>" mockNumber ?e "''bad''"]
      C1_check_order [of "\<lparr>xAxis = Some ''bad'', yAxis = Some ''worse'', colorBy = None\<rparr>" mockNumber ?e
        "''bad''" "''worse''" "''Property '' @ quoted ''bad'' @ '' is empty''"]
      C1_check_order [of "\<lparr>xAxis = Some ''effort'', yAxis = Some ''worse'', colorBy = None\<rparr>" mockNumber ?e
        "''effort''" "''worse''" _ "Finite 2" "''Property '' @ quoted ''worse'' @ '' is empty''"]
      C1_check_order [of "\<lparr>xAxis = Some ''effort'', yAxis = Some ''value'', colorBy = Some ''status''\<rparr>"
        mockNumber ?e "''effort''" "''value''" _ "Finite 2" _ "Finite 8"]
    by (simp add: x_bad y_bad x_ok y_ok cat tf mockFile_def)
qed

section \<open>Categories: properties\<close>

lemma extractCategories_loop_eq:
  "extractCategories_loop points seen acc =
     acc @ filter (\<lambda>c. c \<notin> seen) (first_seen (present_categories points))"
proof (induction points arbitrary: seen acc)
  case Nil
  then show ?case by (simp add: present_categories_def)
next
  case (Cons p ps)
  show ?case
  proof (cases "category p")
    case None
    then show ?thesis using Cons.IH by (simp add: present_categories_def)
  next
    case (Some c)
    have pc: "present_categories (p # ps) = c # present_categories ps"
      using Some by (simp add: present_categories_def)
    show ?thesis
    proof (cases "c \<in> seen")
      case True
      have "filter (\<lambda>d. d \<notin> seen) (filter (\<lambda>d. d \<noteq> c) (first_seen (present_categories ps)))
            = filter (\<lambda>d. d \<notin> seen) (first_seen (present_categories ps))"
        using True by (auto intro: filter_cong)
      then show ?thesis using True Some Cons.IH by (simp add: pc)
    next
      case False
      have "filter (\<lambda>d. d \<notin> insert c seen) (first_seen (present_categories ps))
            = filter (\<lambda>d. d \<notin> seen) (filter (\<lambda>d. d \<noteq> c) (first_seen (present_categories ps)))"
        by (auto intro: filter_cong)
      then show ?thesis using False Some Cons.IH by (simp add: pc)
    qed
  qed
qed

lemma set_first_seen: "set (first_seen cs) = set cs"
  by (induction cs) auto

lemma distinct_first_seen: "distinct (first_seen cs)"
  by (induction cs) (auto simp: set_first_seen)

lemma first_seen_append:
  "first_seen (cs @ ds) = first_seen cs @ filter (\<lambda>d. d \<notin> set cs) (first_seen ds)"
  by (induction cs) (auto intro: filter_cong)

lemma set_present_categories:
  "set (present_categories points) = {c. \<exists>p \<in> set points. category p = Some c}"
  by (auto simp: present_categories_def split: option.splits)

lemma extractCategories_eq: "extractCategories points = first_seen (present_categories points)"
  by (simp add: extractCategories_def extractCategories_loop_eq)

text \<open>
  C9. \<open>extractCategories\<close> returns the distinct category labels of the points in
  the order in which they are first seen, absent categories left out and nothing
  sorted: the result is \<open>first_seen\<close> of the present categories, it has no
  duplicates, its elements are the labels that occur, further points only append
  labels not yet seen, and the categories \<open>[C, A, B, A, null, C]\<close> give \<open>[C, A, B]\<close>.
\<close>

theorem C9_extractCategories:
  "extractCategories points = first_seen (present_categories points)
   \<and> distinct (extractCategories points)
   \<and> set (extractCategories points) = {c. \<exists>p \<in> set points. category p = Some c}
   \<and> extractCategories (points @ more_points) =
       extractCategories points @
         filter (\<lambda>c. c \<notin> set (extractCategories points)) (extractCategories more_points)
   \<and> extractCategories
        [mockPoint 1 1 (Some ''C''), mockPoint 2 2 (Some ''A''), mockPoint 3 3 (Some ''B''),
         mockPoint 4 4 (Some ''A''), mockPoint 5 5 None, mockPoint 6 6 (Some ''C'')] =
       [''C'', ''A'', ''B'']"
proof -
  have "present_categories (points @ more_points) =
        present_categories points @ present_categories more_points"
    by (simp add: present_categories_def)
  then have "extractCategories (points @ more_points) =
       extractCategories points @
         filter (\<lambda>c. c \<notin> set (extractCategories points)) (extractCategories more_points)"
    by (simp add: extractCategories_eq first_seen_append set_first_seen)
  moreover have "extractCategories
        [mockPoint 1 1 (Some ''C''), mockPoint 2 2 (Some ''A''), mockPoint 3 3 (Some ''B''),
         mockPoint 4 4 (Some ''A''), mockPoint 5 5 None, mockPoint 6 6 (Some ''C'')] =
       [''C'', ''A'', ''B'']"
    by (simp add: extractCategories_def mockPoint_def)
  ultimately show ?thesis
    by (simp add: extractCategories_eq distinct_first_seen set_first_seen set_present_categories)
qed

section \<open>Color assignment: properties\<close>

lemma createCategoryColorMap_snoc:
  "createCategoryColorMap (cs @ [c]) pal =
     (createCategoryColorMap cs pal)(c \<mapsto>
        (if length (colors (default_param pal DEFAULT_PALETTE)) = 0 then None
         else Some (colors (default_param pal DEFAULT_PALETTE) !
                     (length cs mod length (colors (default_param pal DEFAULT_PALETTE))))))"
  by (simp add: createCategoryColorMap_def enumerate_append_eq Let_def)

lemma createCategoryColorMap_nth:
  assumes "distinct cs" and "i < length cs"
  shows "createCategoryColorMap cs pal (cs ! i) =
     Some (if length (colors (default_param pal DEFAULT_PALETTE)) = 0 then None
           else Some (colors (default_param pal DEFAULT_PALETTE) !
                       (i mod length (colors (default_param pal DEFAULT_PALETTE)))))"
  using assms
proof (induction cs arbitrary: i rule: rev_induct)
  case Nil
  then show ?case by simp
next
  case (snoc c cs)
  show ?case
  proof (cases "i = length cs")
    case True
    then show ?thesis by (simp add: createCategoryColorMap_snoc)
  next
    case False
    with snoc.prems have lt: "i < length cs" by simp
    with snoc.prems have "cs ! i \<noteq> c" by (auto simp: nth_append)
    then show ?thesis using snoc.IH [OF _ lt] snoc.prems(1) lt
      by (simp add: createCategoryColorMap_snoc nth_append)
  qed
qed

lemma createCategoryColorMap_notin:
  "c \<notin> set cs \<Longrightarrow> createCategoryColorMap cs pal c = None"
proof (induction cs rule: rev_induct)
  case Nil
  then show ?case by (simp add: createCategoryColorMap_def)
next
  case (snoc d cs)
  then show ?case by (simp add: createCategoryColorMap_snoc)
qed

text \<open>
  C8. For a list of distinct category labels and a palette of \<open>k\<close> colors,
  \<open>createCategoryColorMap\<close> maps the category at index \<open>i\<close> to \<open>colors[i mod k]\<close>
  (which is \<open>undefined\<close> for the palette without colors). \<open>getPointColor\<close> returns
  the fallback color for a point without category and for a category the map does
  not hold (so always with the empty map), and the mapped color otherwise.
\<close>

theorem C8_color_assignment:
  assumes "distinct cs" and "i < length cs"
  shows "createCategoryColorMap cs (Some palette) (cs ! i) =
           Some (if colors palette = [] then None
                 else Some (colors palette ! (i mod length (colors palette))))
    \<and> (category p = None \<longrightarrow> getPointColor p colorMap (Some fb) = fb)
    \<and> (category p = Some c \<and> colorMap c = None \<longrightarrow> getPointColor p colorMap (Some fb) = fb)
    \<and> getPointColor p Map.empty (Some fb) = fb
    \<and> (category p = Some c \<and> colorMap c = Some (Some mapped) \<longrightarrow>
          getPointColor p colorMap (Some fb) = mapped)
    \<and> (category p = Some (cs ! i) \<and> colors palette \<noteq> [] \<longrightarrow>
          getPointColor p (createCategoryColorMap cs (Some palette)) (Some fb) =
            colors palette ! (i mod length (colors palette)))
    \<and> (category p = Some c \<and> c \<notin> set cs \<longrightarrow>
          getPointColor p (createCategoryColorMap cs (Some palette)) (Some fb) = fb)"
proof -
  have at: "createCategoryColorMap cs (Some palette) (cs ! i) =
           Some (if colors palette = [] then None
                 else Some (colors palette ! (i mod length (colors palette))))"
    using createCategoryColorMap_nth [OF assms, of "Some palette"]
    by (simp add: default_param_def)
  show ?thesis
    by (auto simp: at getPointColor_def default_param_def createCategoryColorMap_notin
        split: option.splits)
qed

theorem C8_color_assignment_witness:
  "distinct [''A'', ''B'', ''C'', ''D'', ''E''] \<and> 3 < length [''A'', ''B'', ''C'', ''D'', ''E'']
   \<and> colors \<lparr>fallback = ''gray'', colors = [''red'', ''green'', ''blue'']\<rparr> \<noteq> []
   \<and> [''A'', ''B'', ''C'', ''D'', ''E''] ! 3 = ''D''
   \<and> createCategoryColorMap [''A'', ''B'', ''C'', ''D'', ''E'']
        (Some \<lparr>fallback = ''gray'', colors = [''red'', ''green'', ''blue'']\<rparr>) ''D'' = Some (Some ''red'')
   \<and> getPointColor (mockPoint 1 1 (Some ''D''))
        (createCategoryColorMap [''A'', ''B'', ''C'', ''D'', ''E'']
           (Some \<lparr>fallback = ''gray'', colors = [''red'', ''green'', ''blue'']\<rparr>)) (Some ''gray'') = ''red''
   \<and> getPointColor (mockPoint 1 1 None)
        (createCategoryColorMap [''A'', ''B'', ''C'', ''D'', ''E'']
           (Some \<lparr>fallback = ''gray'', colors = [''red'', ''green'', ''blue'']\<rparr>)) (Some ''gray'') = ''gray''
   \<and> getPointColor (mockPoint 1 1 (Some ''unknown''))
        (createCategoryColorMap [''A'', ''B'', ''C'', ''D'', ''E'']
           (Some \<lparr>fallback = ''gray'', colors = [''red'', ''green'', ''blue'']\<rparr>)) (Some ''gray'') = ''gray''"
proof -
  have cat: "category (mockPoint 1 1 (Some ''D'')) = Some ''D''"
       "category (mockPoint 1 1 None) = None"
       "category (mockPoint 1 1 (Some ''unknown'')) = Some ''unknown''"
    by (simp_all add: mockPoint_def)
  show ?thesis
    using
      C8_color_assignment [of "[''A'', ''B'', ''C'', ''D'', ''E'']" 3
        "\<lparr>fallback = ''gray'', colors = [''red'', ''green'', ''blue'']\<rparr>"
        "mockPoint 1 1 (Some ''D'')" _ "''gray''"]
      C8_color_assignment [of "[''A'', ''B'', ''C'', ''D'', ''E'']" 3
        "\<lparr>fallback = ''gray'', colors = [''red'', ''green'', ''blue'']\<rparr>"
        "mockPoint 1 1 None"
        "createCategoryColorMap [''A'', ''B'', ''C'', ''D'', ''E'']
           (Some \<lparr>fallback = ''gray'', colors = [''red'', ''green'', ''blue'']\<rparr>)" "''gray''"]
      C8_color_assignment [of "[''A'', ''B'', ''C'', ''D'', ''E'']" 3
        "\<lparr>fallback = ''gray'', colors = [''red'', ''green'', ''blue'']\<rparr>"
        "mockPoint 1 1 (Some ''unknown'')" _ "''gray''" "''unknown''"]
    by (simp add: cat)
qed

section \<open>Point transformation: properties\<close>

lemma transformPointsToScreen_length:
  "length (transformPointsToScreen points bounds inner colorMap palette_arg) = length points"
  by (simp add: transformPointsToScreen_def Let_def)

lemma transformPointsToScreen_nth:
  "i < length points \<Longrightarrow>
   transformPointsToScreen points bounds inner colorMap palette_arg ! i =
     ScatterPoint.extend (points ! i)
       (RenderedPoint.fields
          (createLinearScale (min_val (PlotBounds.x bounds)) (max_val (PlotBounds.x bounds))
             (Finite 0) (width inner) (ScatterPoint.x (points ! i)))
          (createLinearScale (min_val (PlotBounds.y bounds)) (max_val (PlotBounds.y bounds))
             (height inner) (Finite 0) (ScatterPoint.y (points ! i)))
          (getPointColor (points ! i) colorMap
             (Some (fallback (default_param palette_arg DEFAULT_PALETTE)))))"
  by (simp add: transformPointsToScreen_def Let_def)

lemma truncate_extend:
  "ScatterPoint.truncate (ScatterPoint.extend p (RenderedPoint.fields sx sy c)) = p"
  by (simp add: ScatterPoint.defs RenderedPoint.defs)

lemma transformPointsToScreen_truncate:
  "map ScatterPoint.truncate (transformPointsToScreen points bounds inner colorMap palette_arg) = points"
  by (simp add: transformPointsToScreen_def Let_def comp_def truncate_extend)

lemma extend_fields_sel:
  "screenX (ScatterPoint.extend p (RenderedPoint.fields sx sy c)) = sx"
  "screenY (ScatterPoint.extend p (RenderedPoint.fields sx sy c)) = sy"
  "color (ScatterPoint.extend p (RenderedPoint.fields sx sy c)) = c"
  by (simp_all add: ScatterPoint.defs RenderedPoint.defs)

text \<open>
  The corners of the plot. At the minimum of a non-degenerate axis the scales return
  the start of the screen range, whether or not the span of the axis overflows; at
  the maximum they return the end of the screen range when the span is finite.
\<close>

lemma span_nonzero:
  assumes "is_double lo" and "is_double hi" and "lo \<noteq> hi"
  shows "js_sub (Finite hi) (Finite lo) \<noteq> Finite 0"
proof -
  have "hi \<noteq> lo" using assms(3) by simp
  from fl_diff_nonzero [OF assms(2,1) this] show ?thesis by (simp add: js_sub_Finite)
qed

lemma js_div_zero:
  assumes "s \<noteq> Finite 0" and "s \<noteq> NaN"
  shows "js_div (Finite 0) s = Finite 0"
  using assms by (cases s) (simp_all add: fl_0)

lemma normalized_at_min:
  assumes "is_double lo" and "is_double hi" and "lo \<noteq> hi"
  shows "js_div (js_sub (Finite lo) (Finite lo)) (js_sub (Finite hi) (Finite lo)) = Finite 0"
proof -
  have "js_sub (Finite hi) (Finite lo) \<noteq> NaN" by (simp add: js_sub_Finite fl_not_NaN)
  from js_div_zero [OF span_nonzero [OF assms] this] show ?thesis by (simp add: js_sub_self)
qed

lemma normalized_at_max:
  assumes "is_double lo" and "is_double hi" and "lo \<noteq> hi"
    and "Number_isFinite (js_sub (Finite hi) (Finite lo))"
  shows "js_div (js_sub (Finite hi) (Finite lo)) (js_sub (Finite hi) (Finite lo)) = Finite 1"
proof -
  from assms(4) obtain s where s: "js_sub (Finite hi) (Finite lo) = Finite s"
    by (cases "js_sub (Finite hi) (Finite lo)") simp_all
  with span_nonzero [OF assms(1-3)] have "s \<noteq> 0" by simp
  then show ?thesis by (simp add: s fl_1)
qed

lemma range_X: "is_double w \<Longrightarrow> js_sub (Finite w) (Finite 0) = Finite w"
  by (simp add: js_sub_Finite is_double_def)

lemma range_Y: "is_double h \<Longrightarrow> js_sub (Finite 0) (Finite h) = Finite (- h)"
  by (simp add: js_sub_Finite is_double_def fl_uminus)

lemma scaleX_at_min:
  assumes "is_double lo" and "is_double hi" and "lo \<noteq> hi" and "is_double w"
  shows "createLinearScale (Finite lo) (Finite hi) (Finite 0) (Finite w) (Finite lo) = Finite 0"
  by (simp add: createLinearScale_nondegenerate [OF span_nonzero [OF assms(1-3)]]
      normalized_at_min [OF assms(1-3)] range_X [OF assms(4)] fl_0)

lemma scaleY_at_min:
  assumes "is_double lo" and "is_double hi" and "lo \<noteq> hi" and "is_double h"
  shows "createLinearScale (Finite lo) (Finite hi) (Finite h) (Finite 0) (Finite lo) = Finite h"
  using assms(4)
  by (simp add: createLinearScale_nondegenerate [OF span_nonzero [OF assms(1-3)]]
      normalized_at_min [OF assms(1-3)] range_Y [OF assms(4)] fl_0 is_double_def)

lemma scaleX_at_max:
  assumes "is_double lo" and "is_double hi" and "lo \<noteq> hi" and "is_double w"
    and "Number_isFinite (js_sub (Finite hi) (Finite lo))"
  shows "createLinearScale (Finite lo) (Finite hi) (Finite 0) (Finite w) (Finite hi) = Finite w"
  using assms(4)
  by (simp add: createLinearScale_nondegenerate [OF span_nonzero [OF assms(1-3)]]
      normalized_at_max [OF assms(1-3,5)] range_X [OF assms(4)] is_double_def)

lemma scaleY_at_max:
  assumes "is_double lo" and "is_double hi" and "lo \<noteq> hi" and "is_double h"
    and "Number_isFinite (js_sub (Finite hi) (Finite lo))"
  shows "createLinearScale (Finite lo) (Finite hi) (Finite h) (Finite 0) (Finite hi) = Finite 0"
  using assms(4)
  by (simp add: createLinearScale_nondegenerate [OF span_nonzero [OF assms(1-3)]]
      normalized_at_max [OF assms(1-3,5)] range_Y [OF assms(4)] is_double_def fl_uminus fl_0)

lemma is_double_2_1023: "is_double (2 ^ 1023)"
proof -
  have "fl (2 ^ 1023) = Finite (of_int (2 ^ 52) * 2 powi (1023 - 52))"
    by (rule fl_eqI) (simp_all add: rne_def)
  then show ?thesis by (simp add: is_double_def)
qed

text \<open>
  C4, as stated, holds for every bounds. With a degenerate axis (\<open>min = max\<close>) the
  scale of that axis is constant at the middle of the screen range: the point at
  \<open>(bounds.x.min, bounds.y.min)\<close> is drawn at \<open>(50, 50)\<close> in a 100 by 100 plot, not
  at \<open>(0, 100)\<close>. With the bounds \<open>[-2^1023, 2^1023]\<close> on both axes the span
  overflows, and the point at \<open>(bounds.x.max, bounds.y.max)\<close> gets the coordinates
  \<open>(NaN, NaN)\<close>, not \<open>(100, 0)\<close>.
\<close>

theorem C4_degenerate_bounds_counterexample:
  "ScatterPoint.x (mockPoint 5 5 None) = Finite 5 \<and> ScatterPoint.y (mockPoint 5 5 None) = Finite 5
   \<and> map (\<lambda>r. (screenX r, screenY r))
        (transformPointsToScreen [mockPoint 5 5 None]
           \<lparr>PlotBounds.x = \<lparr>min_val = Finite 5, max_val = Finite 5\<rparr>,
            PlotBounds.y = \<lparr>min_val = Finite 5, max_val = Finite 5\<rparr>\<rparr>
           \<lparr>width = Finite 100, height = Finite 100\<rparr> Map.empty None) =
       [(Finite 50, Finite 50)]
   \<and> map (\<lambda>r. (screenX r, screenY r))
        (transformPointsToScreen [mockPoint 5 5 None]
           \<lparr>PlotBounds.x = \<lparr>min_val = Finite 5, max_val = Finite 5\<rparr>,
            PlotBounds.y = \<lparr>min_val = Finite 5, max_val = Finite 5\<rparr>\<rparr>
           \<lparr>width = Finite 100, height = Finite 100\<rparr> Map.empty None) \<noteq>
       [(Finite 0, Finite 100)]
   \<and> is_double (2 ^ 1023) \<and> is_double (- (2 ^ 1023))
   \<and> map (\<lambda>r. (screenX r, screenY r))
        (transformPointsToScreen [mockPoint (2 ^ 1023) (2 ^ 1023) None]
           \<lparr>PlotBounds.x = \<lparr>min_val = Finite (- (2 ^ 1023)), max_val = Finite (2 ^ 1023)\<rparr>,
            PlotBounds.y = \<lparr>min_val = Finite (- (2 ^ 1023)), max_val = Finite (2 ^ 1023)\<rparr>\<rparr>
           \<lparr>width = Finite 100, height = Finite 100\<rparr> Map.empty None) =
       [(NaN, NaN)]"
proof -
  have e: "fl 100 = Finite 100" "fl 50 = Finite 50" by (simp_all add: fl_eval)
  have deg: "map (\<lambda>r. (screenX r, screenY r))
        (transformPointsToScreen [mockPoint 5 5 None]
           \<lparr>PlotBounds.x = \<lparr>min_val = Finite 5, max_val = Finite 5\<rparr>,
            PlotBounds.y = \<lparr>min_val = Finite 5, max_val = Finite 5\<rparr>\<rparr>
           \<lparr>width = Finite 100, height = Finite 100\<rparr> Map.empty None) =
       [(Finite 50, Finite 50)]"
    by (simp add: transformPointsToScreen_def Let_def extend_fields_sel
        createLinearScale_degenerate js_sub_self mockPoint_def e)
  have big: "is_double (2 ^ 1023)" "is_double (- (2 ^ 1023))"
    using is_double_2_1023 is_double_uminus [OF is_double_2_1023] by simp_all
  have "fl (2 ^ 1023 + 2 ^ 1023) = PosInfinity" by (rule fl_overflow_pos) simp
  then have span: "js_sub (Finite (2 ^ 1023)) (Finite (- (2 ^ 1023))) = PosInfinity"
    by (simp add: js_sub_Finite)
  have sc: "createLinearScale (Finite (- (2 ^ 1023))) (Finite (2 ^ 1023)) r0 r1 (Finite (2 ^ 1023)) = NaN"
    for r0 r1
  proof -
    have nz: "js_sub (Finite (2 ^ 1023)) (Finite (- (2 ^ 1023))) \<noteq> Finite 0"
      unfolding span by simp
    show ?thesis
      unfolding createLinearScale_nondegenerate [OF nz] span by (cases r0) simp_all
  qed
  have ovf: "map (\<lambda>r. (screenX r, screenY r))
        (transformPointsToScreen [mockPoint (2 ^ 1023) (2 ^ 1023) None]
           \<lparr>PlotBounds.x = \<lparr>min_val = Finite (- (2 ^ 1023)), max_val = Finite (2 ^ 1023)\<rparr>,
            PlotBounds.y = \<lparr>min_val = Finite (- (2 ^ 1023)), max_val = Finite (2 ^ 1023)\<rparr>\<rparr>
           \<lparr>width = Finite 100, height = Finite 100\<rparr> Map.empty None) =
       [(NaN, NaN)]"
    using sc [of "Finite 0" "Finite 100"] sc [of "Finite 100" "Finite 0"]
    by (simp add: transformPointsToScreen_def Let_def extend_fields_sel mockPoint_def)
  show ?thesis using deg big ovf by (simp add: mockPoint_def)
qed

text \<open>
  C4, amended. For every point list, bounds, inner dimensions and color map,
  \<open>transformPointsToScreen\<close> returns one rendered point per point, in the same
  order; each carries the fields of its point unchanged, and in addition \<open>screenX\<close>
  and \<open>screenY\<close>, the values of the two scales (the Y scale with the range
  \<open>[innerHeight, 0]\<close>), and \<open>color\<close>, that of \<open>getPointColor\<close> with the fallback of
  the palette. For finite bounds with \<open>min \<noteq> max\<close> on both axes and finite inner
  dimensions, a point at \<open>(bounds.x.min, bounds.y.min)\<close> is drawn at
  \<open>(0, innerHeight)\<close>, and, when the spans \<open>max - min\<close> of both axes are finite, a
  point at \<open>(bounds.x.max, bounds.y.max)\<close> is drawn at \<open>(innerWidth, 0)\<close>.
\<close>

theorem C4_transformPointsToScreen:
  "(let rendered = transformPointsToScreen points bounds inner colorMap palette_arg
    in length rendered = length points
       \<and> map ScatterPoint.truncate rendered = points
       \<and> (\<forall>i < length points.
             screenX (rendered ! i) =
               createLinearScale (min_val (PlotBounds.x bounds)) (max_val (PlotBounds.x bounds))
                 (Finite 0) (width inner) (ScatterPoint.x (points ! i))
             \<and> screenY (rendered ! i) =
               createLinearScale (min_val (PlotBounds.y bounds)) (max_val (PlotBounds.y bounds))
                 (height inner) (Finite 0) (ScatterPoint.y (points ! i))
             \<and> color (rendered ! i) =
               getPointColor (points ! i) colorMap
                 (Some (fallback (default_param palette_arg DEFAULT_PALETTE))))
       \<and> (bounds = \<lparr>PlotBounds.x = \<lparr>min_val = Finite xmin, max_val = Finite xmax\<rparr>,
                    PlotBounds.y = \<lparr>min_val = Finite ymin, max_val = Finite ymax\<rparr>\<rparr>
          \<and> inner = \<lparr>width = Finite w, height = Finite h\<rparr>
          \<and> is_double xmin \<and> is_double xmax \<and> is_double ymin \<and> is_double ymax
          \<and> is_double w \<and> is_double h \<and> xmin \<noteq> xmax \<and> ymin \<noteq> ymax \<longrightarrow>
          (\<forall>i < length points.
              ScatterPoint.x (points ! i) = Finite xmin \<and> ScatterPoint.y (points ! i) = Finite ymin
              \<longrightarrow> screenX (rendered ! i) = Finite 0 \<and> screenY (rendered ! i) = Finite h)
          \<and> (Number_isFinite (js_sub (Finite xmax) (Finite xmin))
             \<and> Number_isFinite (js_sub (Finite ymax) (Finite ymin)) \<longrightarrow>
             (\<forall>i < length points.
                 ScatterPoint.x (points ! i) = Finite xmax \<and> ScatterPoint.y (points ! i) = Finite ymax
                 \<longrightarrow> screenX (rendered ! i) = Finite w \<and> screenY (rendered ! i) = Finite 0))))"
  by (simp add: Let_def transformPointsToScreen_length transformPointsToScreen_truncate
      transformPointsToScreen_nth extend_fields_sel scaleX_at_min scaleY_at_min
      scaleX_at_max scaleY_at_max)

theorem C4_transformPointsToScreen_witness:
  "is_double 0 \<and> is_double 100 \<and> is_double 500 \<and> is_double 400 \<and> (0::real) \<noteq> 100
   \<and> Number_isFinite (js_sub (Finite 100) (Finite 0))
   \<and> map (\<lambda>r. (screenX r, screenY r, color r))
       (transformPointsToScreen [mockPoint 0 0 None, mockPoint 100 100 (Some ''A'')]
         \<lparr>PlotBounds.x = \<lparr>min_val = Finite 0, max_val = Finite 100\<rparr>,
          PlotBounds.y = \<lparr>min_val = Finite 0, max_val = Finite 100\<rparr>\<rparr>
         \<lparr>width = Finite 500, height = Finite 400\<rparr> [''A'' \<mapsto> Some ''red''] None) =
       [(Finite 0, Finite 400, ''var(--text-muted)''), (Finite 500, Finite 0, ''red'')]
   \<and> map ScatterPoint.truncate
       (transformPointsToScreen [mockPoint 0 0 None, mockPoint 100 100 (Some ''A'')]
         \<lparr>PlotBounds.x = \<lparr>min_val = Finite 0, max_val = Finite 100\<rparr>,
          PlotBounds.y = \<lparr>min_val = Finite 0, max_val = Finite 100\<rparr>\<rparr>
         \<lparr>width = Finite 500, height = Finite 400\<rparr> [''A'' \<mapsto> Some ''red''] None) =
       [mockPoint 0 0 None, mockPoint 100 100 (Some ''A'')]"
proof -
  have d: "is_double 0" "is_double 100" "is_double 500" "is_double 400"
    using is_double_of_int [of 0] is_double_of_int [of 100] is_double_of_int [of 500]
      is_double_of_int [of 400] by simp_all
  have f: "Number_isFinite (js_sub (Finite 100) (Finite 0))"
    using d(2) by (simp add: js_sub_Finite is_double_def)
  have sel: "ScatterPoint.x (mockPoint a b c) = Finite a" "ScatterPoint.y (mockPoint a b c) = Finite b"
    for a b c by (simp_all add: mockPoint_def)
  have col: "getPointColor (mockPoint 0 0 None) [''A'' \<mapsto> Some ''red'']
               (Some (fallback (default_param None DEFAULT_PALETTE))) = ''var(--text-muted)''"
    "getPointColor (mockPoint 100 100 (Some ''A'')) [''A'' \<mapsto> Some ''red'']
               (Some (fallback (default_param None DEFAULT_PALETTE))) = ''red''"
    by (simp_all add: getPointColor_def default_param_def DEFAULT_PALETTE_def mockPoint_def)
  let ?r = "transformPointsToScreen [mockPoint 0 0 None, mockPoint 100 100 (Some ''A'')]
         \<lparr>PlotBounds.x = \<lparr>min_val = Finite 0, max_val = Finite 100\<rparr>,
          PlotBounds.y = \<lparr>min_val = Finite 0, max_val = Finite 100\<rparr>\<rparr>
         \<lparr>width = Finite 500, height = Finite 400\<rparr> [''A'' \<mapsto> Some ''red''] None"
  have two: "?r = [?r ! 0, ?r ! Suc 0]"
    by (simp add: transformPointsToScreen_def Let_def)
  have all: "(\<forall>i<Suc (Suc 0). P i) = (P 0 \<and> P (Suc 0))" for P :: "nat \<Rightarrow> bool"
    by (auto simp: less_Suc_eq)
  have "screenX (?r ! 0) = Finite 0 \<and> screenY (?r ! 0) = Finite 400
        \<and> color (?r ! 0) = ''var(--text-muted)''
        \<and> screenX (?r ! Suc 0) = Finite 500 \<and> screenY (?r ! Suc 0) = Finite 0
        \<and> color (?r ! Suc 0) = ''red''
        \<and> map ScatterPoint.truncate ?r = [mockPoint 0 0 None, mockPoint 100 100 (Some ''A'')]"
    using C4_transformPointsToScreen [of "[mockPoint 0 0 None, mockPoint 100 100 (Some ''A'')]"
      "\<lparr>PlotBounds.x = \<lparr>min_val = Finite 0, max_val = Finite 100\<rparr>,
          PlotBounds.y = \<lparr>min_val = Finite 0, max_val = Finite 100\<rparr>\<rparr>"
      "\<lparr>width = Finite 500, height = Finite 400\<rparr>" "[''A'' \<mapsto> Some ''red'']" None
      0 100 0 100 500 400] d f
    by (simp add: Let_def all sel col scaleX_at_min scaleY_at_min scaleX_at_max scaleY_at_max)
  then show ?thesis using d f by (subst (1) two) simp
qed

end
